theory Spec2Isabelle
  imports Main
begin

section \<open>JavaScript strings\<close>

text \<open>
  A JavaScript string is a sequence of UTF-16 code units. The model uses HOL's 8-bit
  characters for the code units U+0000 to U+00FF. Case mapping is modelled on the ASCII
  letters; every other code unit is left as it is. No case mapping of the source language
  produces or consumes a decimal digit, so the format tests below do not depend on this.
\<close>

definition is_digit :: "char \<Rightarrow> bool" where
  "is_digit c = (c \<in> set ''0123456789'')"

text \<open>The white space that \<^verbatim>\<open>String.prototype.trim\<close> removes, below U+0100:
  TAB, LF, VT, FF, CR, SPACE and NO-BREAK SPACE.\<close>

definition is_space :: "char \<Rightarrow> bool" where
  "is_space c = (of_char c \<in> set [9, 10, 11, 12, 13, 32, 160 :: nat])"

definition trim :: "string \<Rightarrow> string" where
  "trim s = rev (dropWhile is_space (rev (dropWhile is_space s)))"

definition upper_char :: "char \<Rightarrow> char" where
  "upper_char c =
     (if 97 \<le> (of_char c :: nat) \<and> (of_char c :: nat) \<le> 122
      then char_of (of_char c - 32 :: nat) else c)"

definition lower_char :: "char \<Rightarrow> char" where
  "lower_char c =
     (if 65 \<le> (of_char c :: nat) \<and> (of_char c :: nat) \<le> 90
      then char_of (of_char c + 32 :: nat) else c)"

definition toUpperCase :: "string \<Rightarrow> string" where
  "toUpperCase s = map upper_char s"

definition toLowerCase :: "string \<Rightarrow> string" where
  "toLowerCase s = map lower_char s"

text \<open>\<^verbatim>\<open>s.substring(a, b)\<close>: both indices are clamped to the length and swapped when
  \<open>a > b\<close>; \<^verbatim>\<open>s.substring(a)\<close> runs to the end.\<close>

definition substring :: "string \<Rightarrow> nat \<Rightarrow> nat \<Rightarrow> string" where
  "substring s a b =
     (let a' = min a (length s); b' = min b (length s);
          lo = min a' b'; hi = max a' b'
      in take (hi - lo) (drop lo s))"

definition substring_from :: "string \<Rightarrow> nat \<Rightarrow> string" where
  "substring_from s a = substring s a (length s)"

text \<open>The regular expression \<^verbatim>\<open>/^\d{7}$/\<close> (no flags): exactly seven ASCII digits.\<close>

definition test_7_digits :: "string \<Rightarrow> bool" where
  "test_7_digits s = (length s = 7 \<and> list_all is_digit s)"

text \<open>\<^verbatim>\<open>s.replace(/^0+/, '')\<close>: the leading run of zeros is removed.\<close>

definition replace_leading_zeros :: "string \<Rightarrow> string" where
  "replace_leading_zeros s = dropWhile (\<lambda>c. c = CHR ''0'') s"

text \<open>\<^verbatim>\<open>a || b\<close> on strings: the empty string is falsy.\<close>

definition or_else :: "string \<Rightarrow> string \<Rightarrow> string" where
  "or_else a b = (if a = [] then b else a)"

subsection \<open>parseInt\<close>

text \<open>
  \<^verbatim>\<open>parseInt(s)\<close> without a radix: leading white space is skipped, a sign is read, a
  prefix \<^verbatim>\<open>0x\<close> or \<^verbatim>\<open>0X\<close> selects radix 16, and the longest prefix of digits of the radix
  is converted. With no digit the result is NaN, here \<open>None\<close>.
\<close>

definition digit_val :: "char \<Rightarrow> int" where
  "digit_val c = int (of_char c) - 48"

definition is_hex_digit :: "char \<Rightarrow> bool" where
  "is_hex_digit c = (c \<in> set ''0123456789abcdefABCDEF'')"

definition hex_val :: "char \<Rightarrow> int" where
  "hex_val c =
     (if is_digit c then digit_val c
      else if c \<in> set ''abcdef'' then int (of_char c) - 87
      else int (of_char c) - 55)"

definition dec_value :: "string \<Rightarrow> int" where
  "dec_value s = foldl (\<lambda>acc c. 10 * acc + digit_val c) 0 s"

definition hex_value :: "string \<Rightarrow> int" where
  "hex_value s = foldl (\<lambda>acc c. 16 * acc + hex_val c) 0 s"

definition parse_digits :: "string \<Rightarrow> int option" where
  "parse_digits s =
     (if take 2 s = ''0x'' \<or> take 2 s = ''0X'' then
        (let z = takeWhile is_hex_digit (drop 2 s)
         in if z = [] then None else Some (hex_value z))
      else
        (let z = takeWhile is_digit s
         in if z = [] then None else Some (dec_value z)))"

definition parseInt :: "string \<Rightarrow> int option" where
  "parseInt s =
     (let t = dropWhile is_space s
      in case t of
           [] \<Rightarrow> None
         | c # r \<Rightarrow>
             if c = CHR ''-'' then map_option uminus (parse_digits r)
             else if c = CHR ''+'' then parse_digits r
             else parse_digits t)"

text \<open>A comparison with NaN is false.\<close>

definition js_lt :: "int option \<Rightarrow> int \<Rightarrow> bool" where
  "js_lt a b = (case a of None \<Rightarrow> False | Some x \<Rightarrow> x < b)"

definition js_gt :: "int option \<Rightarrow> int \<Rightarrow> bool" where
  "js_gt a b = (case a of None \<Rightarrow> False | Some x \<Rightarrow> x > b)"

subsection \<open>Numbers\<close>

text \<open>
  A JavaScript number is a double. A sum of integers is exact while its magnitude is at
  most \<open>2 ^ 53\<close>; beyond, it is the nearest double, ties to even. \<open>dropped_bits m\<close> is the
  number of low bits that the 53-bit significand cannot hold. Values beyond the largest
  double are outside the model.
\<close>

function dropped_bits :: "int \<Rightarrow> nat" where
  "dropped_bits m = (if m < 2 ^ 53 then 0 else Suc (dropped_bits (m div 2)))"
  by pat_completeness auto
termination
  by (relation "measure nat") auto

declare dropped_bits.simps [simp del]

text \<open>The double nearest to a non-negative integer, and to an integer.\<close>

definition round_magnitude :: "int \<Rightarrow> int" where
  "round_magnitude m =
     (let e = dropped_bits m; q = m div 2 ^ e; r = m mod 2 ^ e
      in if 2 * r > 2 ^ e \<or> (2 * r = 2 ^ e \<and> odd q) then (q + 1) * 2 ^ e else q * 2 ^ e)"

definition to_double :: "int \<Rightarrow> int" where
  "to_double i = (if i < 0 then - round_magnitude (- i) else round_magnitude i)"

definition js_plus :: "int \<Rightarrow> int \<Rightarrow> int" where
  "js_plus a b = to_double (a + b)"

section \<open>The certificate ID: parser and validator (script.js)\<close>

record parsed_id =
  pid :: string
  year :: string
  subProgram :: string
  serial :: string
  serialDisplay :: string

text \<open>\<^verbatim>\<open>parseCertificateId\<close> returns \<^verbatim>\<open>null\<close> (here \<open>None\<close>) unless the format test
  passes.\<close>

definition parseCertificateId :: "string \<Rightarrow> parsed_id option" where
  "parseCertificateId i =
     (if \<not> test_7_digits i then None
      else
        (let y = ''20'' @ substring i 0 2;
             sp = substring i 2 4;
             se = substring i 4 7
         in Some \<lparr>pid = i, year = y, subProgram = sp, serial = se,
                  serialDisplay = or_else (replace_leading_zeros se) ''0''\<rparr>))"

datatype validation = Valid parsed_id | Invalid string

definition msg_format :: string where
  "msg_format = ''Certificate ID must be 7 digits (Format: YYSSCCC)''"

definition msg_year :: string where
  "msg_year = ''Invalid year in certificate ID''"

definition msg_subprogram :: string where
  "msg_subprogram = ''Invalid sub-program code''"

definition msg_serial :: string where
  "msg_serial = ''Invalid serial number''"

text \<open>
  \<^verbatim>\<open>validateCertificateId\<close>. After the format test \<^verbatim>\<open>parseCertificateId\<close> cannot return
  \<^verbatim>\<open>null\<close>; the model keeps the branch (a property access on \<^verbatim>\<open>null\<close> throws) as
  \<open>None\<close>.
\<close>

definition validateCertificateId :: "string \<Rightarrow> validation option" where
  "validateCertificateId i0 =
     (let i = toUpperCase (trim i0)
      in if \<not> test_7_digits i then Some (Invalid msg_format)
         else
           (case parseCertificateId i of
              None \<Rightarrow> None
            | Some parsed \<Rightarrow>
                (let yearNum = parseInt (substring_from (year parsed) 2)
                 in if js_lt yearNum 20 \<or> js_gt yearNum 99 then Some (Invalid msg_year)
                    else
                      (let subProgNum = parseInt (subProgram parsed)
                       in if js_lt subProgNum 0 \<or> js_gt subProgNum 99
                          then Some (Invalid msg_subprogram)
                          else
                            (let serialNum = parseInt (serial parsed)
                             in if js_lt serialNum 1 \<or> js_gt serialNum 9999
                                then Some (Invalid msg_serial)
                                else Some (Valid parsed))))))"

section \<open>Values sent to the client\<close>

text \<open>A JavaScript value as handed to \<^verbatim>\<open>res.json\<close>. A property whose value is
  \<open>JUndefined\<close> is dropped when the object is serialised.\<close>

datatype js_value =
    JUndefined
  | JNull
  | JBool bool
  | JNum int
  | JStr string
  | JDate int
  | JOid nat
  | JArr "js_value list"
  | JObj "(string \<times> js_value) list"

fun lookup :: "(string \<times> 'a) list \<Rightarrow> string \<Rightarrow> 'a option" where
  "lookup [] k = None"
| "lookup ((k', v) # kvs) k = (if k' = k then Some v else lookup kvs k)"

definition field :: "js_value \<Rightarrow> string \<Rightarrow> js_value" where
  "field v k =
     (case v of
        JObj kvs \<Rightarrow> (case lookup kvs k of Some x \<Rightarrow> x | None \<Rightarrow> JUndefined)
      | _ \<Rightarrow> JUndefined)"

definition keys :: "js_value \<Rightarrow> string list" where
  "keys v = (case v of JObj kvs \<Rightarrow> map fst kvs | _ \<Rightarrow> [])"

definition opt_str :: "string option \<Rightarrow> js_value" where
  "opt_str s = (case s of None \<Rightarrow> JUndefined | Some x \<Rightarrow> JStr x)"


record response =
  http_status :: nat
  json :: js_value

section \<open>The Certificate model (models/Certificate.js)\<close>

text \<open>
  Dates are milliseconds since the epoch. \<open>verificationCount\<close> is a JavaScript number
  with an integer value. \<open>cert_oid\<close> is the value of the ObjectId \<open>_id\<close>, and
  \<open>version\<close> is the version key \<open>__v\<close> that Mongoose keeps in every document. An
  address is \<open>None\<close> where the source has \<^verbatim>\<open>undefined\<close>.
  The fields \<open>verificationHash\<close>, \<open>certificateUrl\<close>, \<open>notes\<close>, \<open>createdBy\<close>,
  \<open>updatedBy\<close> and \<open>createdAt\<close> are not read or written by the modelled routes and are left
  out; a stored document carries a verification hash, so the pre-save hook does not
  generate one.
\<close>

record ip_entry =
  ip :: "string option"
  verifiedAt :: int

record certificate =
  cert_oid :: nat
  certificateId :: string
  recipientName :: string
  recipientEmail :: string
  program :: string
  programCategory :: string
  awardDate :: int
  isVerified :: bool
  verificationCount :: int
  lastVerifiedAt :: "int option"
  issuedBy :: string
  revokedAt :: "int option"
  revocationReason :: "string option"
  isRevoked :: bool
  ipAddresses :: "ip_entry list"
  updatedAt :: int
  version :: nat

text \<open>The virtuals \<^verbatim>\<open>year\<close> and \<^verbatim>\<open>serialNumber\<close>.\<close>

definition cert_year :: "certificate \<Rightarrow> string" where
  "cert_year c = ''20'' @ substring (certificateId c) 0 2"

definition cert_serialNumber :: "certificate \<Rightarrow> string" where
  "cert_serialNumber c = substring (certificateId c) 4 7"

text \<open>\<^verbatim>\<open>certificateSchema.methods.verify\<close>: throws on a revoked or unverified
  certificate, otherwise counts the verification.\<close>

definition verify :: "int \<Rightarrow> certificate \<Rightarrow> string + certificate" where
  "verify now c =
     (if isRevoked c then Inl ''Certificate has been revoked''
      else if \<not> isVerified c then Inl ''Certificate is not valid''
      else Inr (c\<lparr>verificationCount := js_plus (verificationCount c) 1,
                   lastVerifiedAt := Some now\<rparr>))"

text \<open>\<^verbatim>\<open>existingIP.verifiedAt = new Date()\<close> writes to the first entry that
  \<^verbatim>\<open>find\<close> returned.\<close>

fun touch_first :: "string option \<Rightarrow> int \<Rightarrow> ip_entry list \<Rightarrow> ip_entry list" where
  "touch_first a now [] = []"
| "touch_first a now (e # es) =
     (if ip e = a then e\<lparr>verifiedAt := now\<rparr> # es else e # touch_first a now es)"

text \<open>\<^verbatim>\<open>Array.prototype.shift\<close> removes the first element; on an empty array it does
  nothing.\<close>

definition shift :: "'a list \<Rightarrow> 'a list" where
  "shift xs = (case xs of [] \<Rightarrow> [] | _ # r \<Rightarrow> r)"

definition trackIP :: "string option \<Rightarrow> int \<Rightarrow> certificate \<Rightarrow> certificate" where
  "trackIP a now c =
     (case find (\<lambda>entry. ip entry = a) (ipAddresses c) of
        None \<Rightarrow>
          (let l = (if length (ipAddresses c) \<ge> 10 then shift (ipAddresses c)
                    else ipAddresses c)
           in c\<lparr>ipAddresses := l @ [\<lparr>ip = a, verifiedAt = now\<rparr>]\<rparr>)
      | Some existingIP \<Rightarrow> c\<lparr>ipAddresses := touch_first a now (ipAddresses c)\<rparr>)"

text \<open>
  Mongoose tracks what a document's methods change, and \<^verbatim>\<open>save()\<close> sends the changes
  only. For the array, \<^verbatim>\<open>push\<close> alone is sent as \<^verbatim>\<open>$push\<close>; \<^verbatim>\<open>shift\<close> marks the whole
  array, which is then sent as \<^verbatim>\<open>$set\<close> of the array in memory; an assignment to a field
  of the entry at index \<open>i\<close> is sent as \<^verbatim>\<open>$set\<close> of that position, unless the value
  assigned is the value the entry had. \<open>trackIP_change\<close> is what the calls of
  \<^verbatim>\<open>trackIP\<close> leave in the tracking.
\<close>

datatype array_change = NoChange | Push "ip_entry list" | SetArray | SetElement nat int

definition first_index :: "('a \<Rightarrow> bool) \<Rightarrow> 'a list \<Rightarrow> nat" where
  "first_index P xs = length (takeWhile (\<lambda>x. \<not> P x) xs)"

definition trackIP_change :: "string option \<Rightarrow> int \<Rightarrow> certificate \<Rightarrow> array_change" where
  "trackIP_change a now c =
     (case find (\<lambda>entry. ip entry = a) (ipAddresses c) of
        None \<Rightarrow>
          if length (ipAddresses c) \<ge> 10 then SetArray
          else Push [\<lparr>ip = a, verifiedAt = now\<rparr>]
      | Some existingIP \<Rightarrow>
          if verifiedAt existingIP = now then NoChange
          else SetElement (first_index (\<lambda>entry. ip entry = a) (ipAddresses c)) now)"

text \<open>The pre-save hook normalises the e-mail address and the name.\<close>

definition pre_save :: "certificate \<Rightarrow> certificate" where
  "pre_save c =
     (let c1 = (if recipientEmail c \<noteq> [] then
                  c\<lparr>recipientEmail := trim (toLowerCase (recipientEmail c))\<rparr> else c)
      in if recipientName c1 \<noteq> [] then c1\<lparr>recipientName := trim (recipientName c1)\<rparr>
         else c1)"

section \<open>The AuditLog model (models/AuditLog.js)\<close>

datatype audit_action = CREATE | READ | UPDATE | DELETE | VERIFY | REVOKE | LOGIN | LOGOUT

datatype entity_type = CERTIFICATE | ADMIN | USER

datatype audit_status = SUCCESS | FAILED

text \<open>\<open>entityId\<close> is a string in the schema: a certificate ID or an ObjectId.\<close>

datatype entity_ref = NoEntity | EntityKey string | EntityOid nat

record audit_log =
  action :: audit_action
  entityType :: entity_type
  entityId :: entity_ref
  performedBy :: "nat option"
  performedByUsername :: "string option"
  ipAddress :: "string option"
  status :: audit_status
  details :: js_value
  errorMessage :: "string option"
  createdAt :: int

text \<open>An entry with the fields the caller gives and the defaults of the schema.\<close>

definition audit_entry :: "audit_action \<Rightarrow> entity_type \<Rightarrow> audit_status \<Rightarrow> audit_log" where
  "audit_entry a t s =
     \<lparr>action = a, entityType = t, entityId = NoEntity, performedBy = None,
      performedByUsername = None, ipAddress = None, status = s, details = JUndefined,
      errorMessage = None, createdAt = 0\<rparr>"

section \<open>The Admin model (models/Admin.js)\<close>

record admin =
  admin_oid :: nat
  username :: string
  email :: string
  passwordHash :: string
  fullName :: string
  role :: string
  permissions :: "(string \<times> bool) list"
  isActive :: bool
  lastLogin :: "int option"
  lastLoginIP :: "string option"
  loginAttempts_count :: int
  loginAttempts_lastAttemptAt :: "int option"
  admin_updatedAt :: int


section \<open>The database\<close>

text \<open>
  The three collections. A call to the database is modelled as answered: a failure of
  the driver or of the connection, which every handler catches and answers with 500, is
  not part of the model.
\<close>

record db =
  certificates :: "certificate list"
  auditLogs :: "audit_log list"
  admins :: "admin list"

text \<open>The calls a handler issues to the database, in order.\<close>

datatype db_call =
    Call_Certificate_findOne
  | Call_Certificate_findById
  | Call_Certificate_exists
  | Call_Certificate_save
  | Call_Admin_findOne
  | Call_Admin_save
  | Call_AuditLog_create

text \<open>\<^verbatim>\<open>Certificate.findByCertificateId\<close>.\<close>

definition findByCertificateId :: "db \<Rightarrow> string \<Rightarrow> certificate option" where
  "findByCertificateId d certId =
     find (\<lambda>c. certificateId c = toUpperCase certId) (certificates d)"

text \<open>\<^verbatim>\<open>Certificate.exists({ certificateId, isRevoked: false })\<close>.\<close>

definition exists_active :: "db \<Rightarrow> string \<Rightarrow> bool" where
  "exists_active d certId =
     (find (\<lambda>c. certificateId c = certId \<and> isRevoked c = False) (certificates d) \<noteq> None)"



text \<open>
  \<^verbatim>\<open>document.save()\<close>, for a document that was loaded from the collection: \<open>loaded\<close> is
  the document as it was loaded, \<open>c\<close> the document in memory and \<open>ch\<close> the tracked change
  of the array.

  The hooks run first: validation, then the time stamp (\<open>updatedAt\<close>, when the document
  is modified), then the pre-save hook of the schema. The collection holds documents
  that Mongoose wrote, which satisfy the schema, and the paths that the modelled
  handlers modify carry no validator: validation passes.

  Then the modified paths are sent in one \<^verbatim>\<open>updateOne\<close>: a scalar path is modified when
  its value differs from the loaded one, and is sent as \<^verbatim>\<open>$set\<close>. The update selects by
  \<open>_id\<close>, and also by the version key as loaded when the array is set as a whole or by
  position; it increments the version key when the array is pushed to or set as a whole.
  When no stored document is selected, \<^verbatim>\<open>save()\<close> throws. With nothing modified, nothing
  is sent.
\<close>

definition scalar_part :: "certificate \<Rightarrow> certificate" where
  "scalar_part c = c\<lparr>ipAddresses := [], version := 0\<rparr>"

definition modified :: "certificate \<Rightarrow> certificate \<Rightarrow> array_change \<Rightarrow> bool" where
  "modified loaded c ch = (scalar_part c \<noteq> scalar_part loaded \<or> ch \<noteq> NoChange)"

definition checks_version :: "array_change \<Rightarrow> bool" where
  "checks_version ch = (case ch of SetArray \<Rightarrow> True | SetElement i t \<Rightarrow> True | _ \<Rightarrow> False)"

definition increments_version :: "array_change \<Rightarrow> bool" where
  "increments_version ch = (case ch of Push es \<Rightarrow> True | SetArray \<Rightarrow> True | _ \<Rightarrow> False)"

text \<open>The selection of the update.\<close>

definition selects :: "certificate \<Rightarrow> array_change \<Rightarrow> certificate \<Rightarrow> bool" where
  "selects loaded ch s =
     (cert_oid s = cert_oid loaded \<and>
      (if checks_version ch then version s = version loaded else True))"

text \<open>A scalar path as stored after the update: the value in memory when the path is
  modified, the stored value otherwise.\<close>

definition pick :: "'a \<Rightarrow> 'a \<Rightarrow> 'a \<Rightarrow> 'a" where
  "pick loaded_value value stored_value =
     (if value \<noteq> loaded_value then value else stored_value)"

text \<open>The array as stored after the update; a position outside the stored array does
  not occur under the version check and is left alone.\<close>

definition array_after :: "array_change \<Rightarrow> ip_entry list \<Rightarrow> ip_entry list \<Rightarrow> ip_entry list" where
  "array_after ch stored in_memory =
     (case ch of
        NoChange \<Rightarrow> stored
      | Push es \<Rightarrow> stored @ es
      | SetArray \<Rightarrow> in_memory
      | SetElement i t \<Rightarrow>
          if i < length stored then stored[i := (stored ! i)\<lparr>verifiedAt := t\<rparr>] else stored)"

definition apply_update ::
  "certificate \<Rightarrow> certificate \<Rightarrow> array_change \<Rightarrow> certificate \<Rightarrow> certificate" where
  "apply_update l c ch s =
     \<lparr>cert_oid = cert_oid s,
      certificateId = pick (certificateId l) (certificateId c) (certificateId s),
      recipientName = pick (recipientName l) (recipientName c) (recipientName s),
      recipientEmail = pick (recipientEmail l) (recipientEmail c) (recipientEmail s),
      program = pick (program l) (program c) (program s),
      programCategory = pick (programCategory l) (programCategory c) (programCategory s),
      awardDate = pick (awardDate l) (awardDate c) (awardDate s),
      isVerified = pick (isVerified l) (isVerified c) (isVerified s),
      verificationCount =
        pick (verificationCount l) (verificationCount c) (verificationCount s),
      lastVerifiedAt = pick (lastVerifiedAt l) (lastVerifiedAt c) (lastVerifiedAt s),
      issuedBy = pick (issuedBy l) (issuedBy c) (issuedBy s),
      revokedAt = pick (revokedAt l) (revokedAt c) (revokedAt s),
      revocationReason =
        pick (revocationReason l) (revocationReason c) (revocationReason s),
      isRevoked = pick (isRevoked l) (isRevoked c) (isRevoked s),
      ipAddresses = array_after ch (ipAddresses s) (ipAddresses c),
      updatedAt = pick (updatedAt l) (updatedAt c) (updatedAt s),
      version = (if increments_version ch then version s + 1 else version s)\<rparr>"

text \<open>\<^verbatim>\<open>updateOne\<close> changes the first document that the selection matches.\<close>

fun update_first :: "('a \<Rightarrow> bool) \<Rightarrow> ('a \<Rightarrow> 'a) \<Rightarrow> 'a list \<Rightarrow> 'a list option" where
  "update_first P f [] = None"
| "update_first P f (x # xs) =
     (if P x then Some (f x # xs) else map_option ((#) x) (update_first P f xs))"

definition save ::
  "int \<Rightarrow> certificate \<Rightarrow> array_change \<Rightarrow> certificate \<Rightarrow> db \<Rightarrow> string + certificate \<times> db" where
  "save now loaded ch c d =
     (let c1 = (if modified loaded c ch then c\<lparr>updatedAt := now\<rparr> else c);
          c2 = pre_save c1
      in if \<not> modified loaded c2 ch then Inr (c2, d)
         else
           (case update_first (selects loaded ch) (apply_update loaded c2 ch)
                   (certificates d) of
              None \<Rightarrow>
                Inl (if checks_version ch then ''VersionError''
                     else ''DocumentNotFoundError'')
            | Some cs \<Rightarrow>
                Inr (c2\<lparr>version :=
                          (if increments_version ch then version c2 + 1 else version c2)\<rparr>,
                     d\<lparr>certificates := cs\<rparr>)))"

text \<open>The document in memory after a save that sent an update.\<close>

definition saved :: "int \<Rightarrow> array_change \<Rightarrow> certificate \<Rightarrow> certificate" where
  "saved now ch c =
     (pre_save (c\<lparr>updatedAt := now\<rparr>))
       \<lparr>version := (if increments_version ch then version c + 1 else version c)\<rparr>"


definition AuditLog_create :: "int \<Rightarrow> audit_log \<Rightarrow> db \<Rightarrow> db" where
  "AuditLog_create now e d = d\<lparr>auditLogs := auditLogs d @ [e\<lparr>createdAt := now\<rparr>]\<rparr>"





section \<open>Requests and middleware\<close>

text \<open>\<^verbatim>\<open>req.user\<close>: the claims of the verified token.\<close>

record token_user =
  user_id :: nat
  user_username :: string
  user_role :: string
  user_permissions :: "(string \<times> bool) list option"

text \<open>\<open>param\<close> is the value of the route's path parameter (\<^verbatim>\<open>:certificateId\<close> or
  \<^verbatim>\<open>:id\<close>); a matched route always has it.\<close>

record request =
  param :: string
  query :: "(string \<times> string) list"
  body :: "(string \<times> string) list"
  req_ip :: "string option"
  remoteAddress :: "string option"
  user :: "token_user option"

text \<open>\<^verbatim>\<open>req.ip || req.connection.remoteAddress\<close>.\<close>

definition clientIP :: "request \<Rightarrow> string option" where
  "clientIP req =
     (case req_ip req of
        None \<Rightarrow> remoteAddress req
      | Some a \<Rightarrow> if a = [] then remoteAddress req else Some a)"

subsection \<open>express-validator (middleware/validation.js)\<close>

text \<open>
  A validation chain reads one field of one location of the request; \<^verbatim>\<open>query(...)\<close> reads
  \<^verbatim>\<open>req.query\<close> and \<^verbatim>\<open>body(...)\<close> reads \<^verbatim>\<open>req.body\<close>. Sanitizers and validators work on the
  field converted to a string, a missing field being the empty string.
\<close>

record validation_error =
  err_param :: string
  err_msg :: string
  err_value :: "string option"

definition field_string :: "(string \<times> string) list \<Rightarrow> string \<Rightarrow> string" where
  "field_string kvs k = (case lookup kvs k of None \<Rightarrow> [] | Some v \<Rightarrow> v)"

definition error_detail :: "validation_error \<Rightarrow> js_value" where
  "error_detail e =
     JObj [(''field'', JStr (err_param e)), (''message'', JStr (err_msg e)),
           (''value'', opt_str (err_value e))]"

text \<open>\<^verbatim>\<open>handleValidationErrors\<close> answers 400 when the chains left an error.\<close>

definition handleValidationErrors :: "validation_error list \<Rightarrow> response option" where
  "handleValidationErrors errs =
     (if errs \<noteq> [] then
        Some \<lparr>http_status = 400,
              json = JObj [(''error'', JStr ''Validation Failed''),
                           (''details'', JArr (map error_detail errs))]\<rparr>
      else None)"

text \<open>The chain of both public routes:
  \<^verbatim>\<open>query('certificateId').trim().toUpperCase().matches(/^\d{7}$/)\<close>.\<close>

definition check_certificateId :: "request \<Rightarrow> validation_error list" where
  "check_certificateId req =
     (let v = toUpperCase (trim (field_string (query req) ''certificateId''))
      in if test_7_digits v then []
         else [\<lparr>err_param = ''certificateId'', err_msg = ''Invalid certificate ID format'',
                err_value = Some v\<rparr>])"

subsection \<open>Authorization (middleware/auth.js)\<close>


section \<open>The public routes (routes/certificates.js)\<close>

record result =
  db_after :: db
  calls :: "db_call list"
  reply :: response

definition public_projection :: "certificate \<Rightarrow> js_value" where
  "public_projection c =
     JObj [(''certificateId'', JStr (certificateId c)),
           (''recipientName'', JStr (recipientName c)),
           (''program'', JStr (program c)),
           (''programCategory'', JStr (programCategory c)),
           (''awardDate'', JDate (awardDate c)),
           (''issuedBy'', JStr (issuedBy c)),
           (''year'', JStr (cert_year c)),
           (''serialNumber'', JStr (cert_serialNumber c)),
           (''verificationCount'', JNum (verificationCount c))]"

text \<open>The answer of the \<^verbatim>\<open>catch\<close> block of the verification handler.\<close>

definition verification_error :: response where
  "verification_error =
     \<lparr>http_status = 500,
      json = JObj [(''error'', JStr ''Verification Error''),
                   (''message'', JStr ''Failed to verify certificate''),
                   (''verified'', JBool False)]\<rparr>"

text \<open>\<^verbatim>\<open>GET /verify/:certificateId\<close>. An exception inside the handler, from
  \<^verbatim>\<open>verify()\<close> or from \<^verbatim>\<open>save()\<close>, is caught and answered with 500.\<close>

definition verify_route :: "int \<Rightarrow> db \<Rightarrow> request \<Rightarrow> result" where
  "verify_route now d req =
     (case handleValidationErrors (check_certificateId req) of
        Some r \<Rightarrow> \<lparr>db_after = d, calls = [], reply = r\<rparr>
      | None \<Rightarrow>
          (let certId = param req; addr = clientIP req
           in case findByCertificateId d certId of
                None \<Rightarrow>
                  \<lparr>db_after =
                     AuditLog_create now
                       ((audit_entry VERIFY CERTIFICATE FAILED)
                          \<lparr>entityId := EntityKey certId, ipAddress := addr,
                           errorMessage := Some ''Certificate not found''\<rparr>) d,
                   calls = [Call_Certificate_findOne, Call_AuditLog_create],
                   reply =
                     \<lparr>http_status = 404,
                      json = JObj [(''error'', JStr ''Not Found''),
                                   (''message'', JStr ''Certificate not found in the system''),
                                   (''verified'', JBool False)]\<rparr>\<rparr>
              | Some cert \<Rightarrow>
                  if isRevoked cert then
                    \<lparr>db_after =
                       AuditLog_create now
                         ((audit_entry VERIFY CERTIFICATE FAILED)
                            \<lparr>entityId := EntityKey certId, ipAddress := addr,
                             errorMessage := Some ''Certificate revoked''\<rparr>) d,
                     calls = [Call_Certificate_findOne, Call_AuditLog_create],
                     reply =
                       \<lparr>http_status = 410,
                        json = JObj [(''error'', JStr ''Revoked''),
                                     (''message'', JStr ''This certificate has been revoked''),
                                     (''verified'', JBool False),
                                     (''revokedAt'',
                                      (case revokedAt cert of None \<Rightarrow> JNull
                                       | Some t \<Rightarrow> JDate t)),
                                     (''revocationReason'',
                                      opt_str (revocationReason cert))]\<rparr>\<rparr>
                  else
                    (case verify now cert of
                       Inl e \<Rightarrow>
                         \<lparr>db_after = d, calls = [Call_Certificate_findOne],
                          reply = verification_error\<rparr>
                     | Inr c1 \<Rightarrow>
                         (case save now cert (trackIP_change addr now c1)
                                 (trackIP addr now c1) d of
                            Inl e \<Rightarrow>
                              \<lparr>db_after = d,
                               calls = [Call_Certificate_findOne, Call_Certificate_save],
                               reply = verification_error\<rparr>
                          | Inr (c2, d1) \<Rightarrow>
                              \<lparr>db_after =
                                 AuditLog_create now
                                   ((audit_entry VERIFY CERTIFICATE SUCCESS)
                                      \<lparr>entityId := EntityKey certId, ipAddress := addr\<rparr>) d1,
                               calls = [Call_Certificate_findOne, Call_Certificate_save,
                                        Call_AuditLog_create],
                               reply =
                                 \<lparr>http_status = 200,
                                  json = JObj [(''verified'', JBool True),
                                               (''certificate'',
                                                public_projection c2)]\<rparr>\<rparr>))))"

text \<open>\<^verbatim>\<open>GET /check/:certificateId\<close>.\<close>

definition check_route :: "db \<Rightarrow> request \<Rightarrow> result" where
  "check_route d req =
     (case handleValidationErrors (check_certificateId req) of
        Some r \<Rightarrow> \<lparr>db_after = d, calls = [], reply = r\<rparr>
      | None \<Rightarrow>
          (let certId = param req
           in \<lparr>db_after = d, calls = [Call_Certificate_exists],
               reply =
                 \<lparr>http_status = 200,
                  json = JObj [(''exists'', JBool (exists_active d certId)),
                               (''certificateId'', JStr certId)]\<rparr>\<rparr>))"

section \<open>The admin revoke route (routes/admin.js)\<close>







section \<open>The login route (routes/auth.js)\<close>













section \<open>The verification handler between its database calls\<close>

text \<open>
  The handler of \<^verbatim>\<open>GET /verify/:certificateId\<close> is an \<^verbatim>\<open>async\<close> function: it runs without
  interruption up to an \<^verbatim>\<open>await\<close> of a database call, and other requests are served
  while it waits. A request in flight is a task; one step executes the database call
  the task waits for and the handler's code up to its next \<^verbatim>\<open>await\<close>. A task that
  waits for its save holds the document as loaded, the tracked change of the array and
  the document in memory.
\<close>

datatype task =
    Start request
  | PendingSave request certificate array_change certificate
  | PendingAudit audit_log response
  | Done response

definition verify_step :: "int \<Rightarrow> db \<Rightarrow> task \<Rightarrow> db \<times> task" where
  "verify_step now d t =
     (case t of
        Start req \<Rightarrow>
          (case handleValidationErrors (check_certificateId req) of
             Some r \<Rightarrow> (d, Done r)
           | None \<Rightarrow>
               (let certId = param req; addr = clientIP req
                in case findByCertificateId d certId of
                     None \<Rightarrow>
                       (d, PendingAudit
                             ((audit_entry VERIFY CERTIFICATE FAILED)
                                \<lparr>entityId := EntityKey certId, ipAddress := addr,
                                 errorMessage := Some ''Certificate not found''\<rparr>)
                             \<lparr>http_status = 404,
                              json = JObj [(''error'', JStr ''Not Found''),
                                           (''message'',
                                            JStr ''Certificate not found in the system''),
                                           (''verified'', JBool False)]\<rparr>)
                   | Some cert \<Rightarrow>
                       if isRevoked cert then
                         (d, PendingAudit
                               ((audit_entry VERIFY CERTIFICATE FAILED)
                                  \<lparr>entityId := EntityKey certId, ipAddress := addr,
                                   errorMessage := Some ''Certificate revoked''\<rparr>)
                               \<lparr>http_status = 410,
                                json = JObj [(''error'', JStr ''Revoked''),
                                             (''message'',
                                              JStr ''This certificate has been revoked''),
                                             (''verified'', JBool False),
                                             (''revokedAt'',
                                              (case revokedAt cert of None \<Rightarrow> JNull
                                               | Some t \<Rightarrow> JDate t)),
                                             (''revocationReason'',
                                              opt_str (revocationReason cert))]\<rparr>)
                       else
                         (case verify now cert of
                            Inl e \<Rightarrow> (d, Done verification_error)
                          | Inr c1 \<Rightarrow>
                              (d, PendingSave req cert (trackIP_change addr now c1)
                                    (trackIP addr now c1)))))
      | PendingSave req loaded ch c \<Rightarrow>
          (case save now loaded ch c d of
             Inl e \<Rightarrow> (d, Done verification_error)
           | Inr (c2, d1) \<Rightarrow>
               (d1, PendingAudit
                      ((audit_entry VERIFY CERTIFICATE SUCCESS)
                         \<lparr>entityId := EntityKey (param req), ipAddress := clientIP req\<rparr>)
                      \<lparr>http_status = 200,
                       json = JObj [(''verified'', JBool True),
                                    (''certificate'', public_projection c2)]\<rparr>))
      | PendingAudit entry r \<Rightarrow> (AuditLog_create now entry d, Done r)
      | Done r \<Rightarrow> (d, Done r))"

text \<open>Two requests in flight; the schedule says which of them takes the next step, and
  at what time.\<close>

fun run_two :: "db \<Rightarrow> task \<Rightarrow> task \<Rightarrow> (bool \<times> int) list \<Rightarrow> db \<times> task \<times> task" where
  "run_two d t1 t2 [] = (d, t1, t2)"
| "run_two d t1 t2 ((first, now) # sched) =
     (if first then (let (d', t1') = verify_step now d t1 in run_two d' t1' t2 sched)
      else (let (d', t2') = verify_step now d t2 in run_two d' t1 t2' sched))"

text \<open>The status of the answer of a finished task.\<close>

definition answered :: "task \<Rightarrow> nat option" where
  "answered t = (case t of Done r \<Rightarrow> Some (http_status r) | _ \<Rightarrow> None)"

section \<open>The validator as the specification words it\<close>

text \<open>
  The decoded structure of a seven-digit string: the slices \<open>[0:2]\<close>, \<open>[2:4]\<close> and
  \<open>[4:7]\<close>, the year prefixed with \<open>20\<close>, and the serial without its leading zeros, or
  \<open>0\<close> when nothing is left.
\<close>

definition spec_decode :: "string \<Rightarrow> parsed_id" where
  "spec_decode s =
     \<lparr>pid = s, year = ''20'' @ take 2 s, subProgram = take 2 (drop 2 s),
      serial = take 3 (drop 4 s),
      serialDisplay =
        (if dropWhile (\<lambda>c. c = CHR ''0'') (take 3 (drop 4 s)) = [] then ''0''
         else dropWhile (\<lambda>c. c = CHR ''0'') (take 3 (drop 4 s)))\<rparr>"

definition in_range :: "int \<Rightarrow> int \<Rightarrow> int \<Rightarrow> bool" where
  "in_range lo hi v = (lo \<le> v \<and> v \<le> hi)"

text \<open>The rules in order, the first failure winning.\<close>

definition spec_validator :: "string \<Rightarrow> validation" where
  "spec_validator s =
     (if \<not> test_7_digits s then Invalid msg_format
      else if \<not> in_range 20 99 (dec_value (take 2 s)) then Invalid msg_year
      else if \<not> in_range 0 99 (dec_value (take 2 (drop 2 s))) then Invalid msg_subprogram
      else if \<not> in_range 1 9999 (dec_value (take 3 (drop 4 s))) then Invalid msg_serial
      else Valid (spec_decode s))"

section \<open>Sample data\<close>

definition sample_certificate :: certificate where
  "sample_certificate =
     \<lparr>cert_oid = 1, certificateId = ''2501001'', recipientName = ''Ada Lovelace'',
      recipientEmail = ''ada@example.org'', program = ''Web Development'',
      programCategory = ''01'', awardDate = 1000, isVerified = True, verificationCount = 4,
      lastVerifiedAt = None, issuedBy = ''STEM CS Club'', revokedAt = None,
      revocationReason = None, isRevoked = False,
      ipAddresses = [\<lparr>ip = Some ''10.0.0.1'', verifiedAt = 3\<rparr>], updatedAt = 1000,
      version = 0\<rparr>"

definition unverified_certificate :: certificate where
  "unverified_certificate = sample_certificate\<lparr>isVerified := False\<rparr>"

definition revoked_certificate :: certificate where
  "revoked_certificate =
     sample_certificate\<lparr>isRevoked := True, revokedAt := Some 2000,
                         revocationReason := Some ''policy violation''\<rparr>"

definition sample_db :: db where
  "sample_db = \<lparr>certificates = [sample_certificate], auditLogs = [], admins = []\<rparr>"

definition unverified_db :: db where
  "unverified_db = \<lparr>certificates = [unverified_certificate], auditLogs = [], admins = []\<rparr>"

definition revoked_db :: db where
  "revoked_db = \<lparr>certificates = [revoked_certificate], auditLogs = [], admins = []\<rparr>"

text \<open>\<^verbatim>\<open>GET .../2501001?certificateId=2501001\<close> from 10.0.0.2.\<close>

definition sample_request :: request where
  "sample_request =
     \<lparr>param = ''2501001'', query = [(''certificateId'', ''2501001'')], body = [],
      req_ip = Some ''10.0.0.2'', remoteAddress = None, user = None\<rparr>"

text \<open>\<^verbatim>\<open>GET .../2501001\<close> with no query string, and
  \<^verbatim>\<open>GET .../abc?certificateId=2501001\<close>.\<close>

definition path_only_request :: request where
  "path_only_request =
     \<lparr>param = ''2501001'', query = [], body = [],
      req_ip = Some ''10.0.0.2'', remoteAddress = None, user = None\<rparr>"

definition bad_path_request :: request where
  "bad_path_request =
     \<lparr>param = ''abc'', query = [(''certificateId'', ''2501001'')], body = [],
      req_ip = Some ''10.0.0.2'', remoteAddress = None, user = None\<rparr>"

text \<open>A certificate whose list of addresses is full, and a request from an address that
  is not in it.\<close>

definition full_certificate :: certificate where
  "full_certificate =
     sample_certificate
       \<lparr>ipAddresses :=
          map (\<lambda>a. \<lparr>ip = Some a, verifiedAt = 3\<rparr>)
            [''10.0.1.0'', ''10.0.1.1'', ''10.0.1.2'', ''10.0.1.3'', ''10.0.1.4'',
             ''10.0.1.5'', ''10.0.1.6'', ''10.0.1.7'', ''10.0.1.8'', ''10.0.1.9'']\<rparr>"

definition full_db :: db where
  "full_db = \<lparr>certificates = [full_certificate], auditLogs = [], admins = []\<rparr>"











section \<open>Properties of the parser and the validator\<close>

lemma is_digit_facts:
  "is_digit c \<Longrightarrow> \<not> is_space c \<and> c \<noteq> CHR ''-'' \<and> c \<noteq> CHR ''+'' \<and> c \<noteq> CHR ''x'' \<and> c \<noteq> CHR ''X''"
  by (auto simp: is_digit_def is_space_def)

lemma parse_digits_all_digits:
  assumes "list_all is_digit z" "z \<noteq> []"
  shows "parse_digits z = Some (dec_value z)"
proof -
  have tw: "takeWhile is_digit z = z"
    using assms(1) by (simp add: takeWhile_eq_all_conv list_all_iff)
  have nx: "take 2 z \<noteq> ''0x'' \<and> take 2 z \<noteq> ''0X''"
  proof (cases z)
    case Nil then show ?thesis by simp
  next
    case (Cons a r)
    show ?thesis
    proof (cases r)
      case Nil with Cons show ?thesis by simp
    next
      case (Cons b r')
      with \<open>z = a # r\<close> assms(1) have "is_digit b" by simp
      then have "b \<noteq> CHR ''x'' \<and> b \<noteq> CHR ''X''" using is_digit_facts by blast
      with Cons \<open>z = a # r\<close> show ?thesis by simp
    qed
  qed
  have "parse_digits z = (let y = takeWhile is_digit z in if y = [] then None else Some (dec_value y))"
    using nx by (simp add: parse_digits_def)
  also have "\<dots> = Some (dec_value z)"
    unfolding tw Let_def using assms(2) by simp
  finally show ?thesis .
qed

lemma parseInt_all_digits:
  assumes "list_all is_digit z" "z \<noteq> []"
  shows "parseInt z = Some (dec_value z)"
proof -
  obtain c r where z: "z = c # r" using assms(2) by (cases z) auto
  then have d: "is_digit c" using assms(1) by simp
  have "dropWhile is_space z = z" using z d is_digit_facts by simp
  then show ?thesis
    using z d is_digit_facts [of c] parse_digits_all_digits [OF assms]
    by (simp add: parseInt_def)
qed

lemma test_7_digits_shape:
  "test_7_digits s \<Longrightarrow> \<exists>a b c d e f g. s = [a, b, c, d, e, f, g]"
  by (auto simp: test_7_digits_def length_Suc_conv numeral_eq_Suc)

lemma parseCertificateId_eq:
  assumes "test_7_digits s"
  shows "parseCertificateId s = Some (spec_decode s)"
proof -
  obtain a b c d e f g where s: "s = [a, b, c, d, e, f, g]"
    using test_7_digits_shape [OF assms] by blast
  show ?thesis using assms unfolding s
    by (simp add: parseCertificateId_def spec_decode_def substring_def or_else_def
        replace_leading_zeros_def Let_def)
qed

lemma validate_normalised:
  assumes n: "toUpperCase (trim s0) = s" and t: "test_7_digits s"
  shows "validateCertificateId s0 = Some (spec_validator s)"
proof -
  obtain a b c d e f g where s: "s = [a, b, c, d, e, f, g]"
    using test_7_digits_shape [OF t] by blast
  have dg: "is_digit a" "is_digit b" "is_digit c" "is_digit d" "is_digit e" "is_digit f" "is_digit g"
    using t unfolding s test_7_digits_def by simp_all
  have y: "parseInt [a, b] = Some (dec_value [a, b])"
    using dg by (intro parseInt_all_digits) simp_all
  have sp: "parseInt [c, d] = Some (dec_value [c, d])"
    using dg by (intro parseInt_all_digits) simp_all
  have se: "parseInt [e, f, g] = Some (dec_value [e, f, g])"
    using dg by (intro parseInt_all_digits) simp_all
  have p: "parseCertificateId s = Some (spec_decode s)"
    by (rule parseCertificateId_eq [OF t])
  have sd: "substring_from (year (spec_decode s)) 2 = [a, b]"
    "subProgram (spec_decode s) = [c, d]" "serial (spec_decode s) = [e, f, g]"
    unfolding s by (simp_all add: spec_decode_def substring_from_def substring_def)
  have tk: "take 2 s = [a, b]" "take 2 (drop 2 s) = [c, d]" "take 3 (drop 4 s) = [e, f, g]"
    unfolding s by simp_all
  have "validateCertificateId s0 =
     (if js_lt (Some (dec_value [a, b])) 20 \<or> js_gt (Some (dec_value [a, b])) 99
      then Some (Invalid msg_year)
      else if js_lt (Some (dec_value [c, d])) 0 \<or> js_gt (Some (dec_value [c, d])) 99
      then Some (Invalid msg_subprogram)
      else if js_lt (Some (dec_value [e, f, g])) 1 \<or> js_gt (Some (dec_value [e, f, g])) 9999
      then Some (Invalid msg_serial)
      else Some (Valid (spec_decode s)))"
    unfolding validateCertificateId_def Let_def n p option.case sd y sp se
    using t by simp
  also have "\<dots> = Some (spec_validator s)"
    unfolding spec_validator_def tk using t
    by (auto simp: js_lt_def js_gt_def in_range_def)
  finally show ?thesis .
qed

lemma validate_refines:
  "validateCertificateId s = Some (spec_validator (toUpperCase (trim s)))"
proof (cases "test_7_digits (toUpperCase (trim s))")
  case True
  show ?thesis by (rule validate_normalised [OF refl True])
next
  case False
  then show ?thesis
    by (simp add: validateCertificateId_def spec_validator_def)
qed


lemma digit_val_range: "is_digit c \<Longrightarrow> 0 \<le> digit_val c \<and> digit_val c \<le> 9"
  by (auto simp: is_digit_def digit_val_def)

lemma digit_val_zero: "is_digit c \<Longrightarrow> digit_val c = 0 \<Longrightarrow> c = CHR ''0''"
  by (auto simp: is_digit_def digit_val_def)

lemma upper_char_digit: "is_digit c \<Longrightarrow> upper_char c = c"
  by (auto simp: is_digit_def upper_char_def)

lemma trim_7_digits:
  assumes "test_7_digits s"
  shows "toUpperCase (trim s) = s"
proof -
  obtain a b c d e f g where s: "s = [a, b, c, d, e, f, g]"
    using test_7_digits_shape [OF assms] by blast
  have dg: "is_digit a" "is_digit b" "is_digit c" "is_digit d" "is_digit e" "is_digit f" "is_digit g"
    using assms unfolding s test_7_digits_def by simp_all
  have sp: "\<not> is_space a" "\<not> is_space g"
    using dg is_digit_facts by blast+
  have "trim s = s" unfolding s trim_def using sp by simp
  moreover have "toUpperCase s = s"
    unfolding s toUpperCase_def using dg by (simp add: upper_char_digit)
  ultimately show ?thesis by simp
qed

lemma spec_validator_year_19:
  assumes "test_7_digits s" "take 2 s = ''19''"
  shows "spec_validator s = Invalid msg_year"
  using assms by (simp add: spec_validator_def in_range_def dec_value_def digit_val_def)

lemma spec_validator_serial_000:
  assumes "test_7_digits s" "in_range 20 99 (dec_value (take 2 s))" "drop 4 s = ''000''"
  shows "spec_validator s = Invalid msg_serial"
proof -
  obtain a b c d e f g where s: "s = [a, b, c, d, e, f, g]"
    using test_7_digits_shape [OF assms(1)] by blast
  have dg: "is_digit c" "is_digit d"
    using assms(1) unfolding s test_7_digits_def by simp_all
  have sub: "in_range 0 99 (dec_value [c, d])"
    using digit_val_range [OF dg(1)] digit_val_range [OF dg(2)]
    by (simp add: in_range_def dec_value_def)
  have ser: "\<not> in_range 1 9999 (dec_value ''000'')"
    by (simp add: in_range_def dec_value_def digit_val_def)
  have e: "take 3 (drop 4 s) = ''000''" using assms(3) by simp
  have sb: "take 2 (drop 2 s) = [c, d]" unfolding s by simp
  show ?thesis
    unfolding spec_validator_def e sb using assms(1,2) sub ser by simp
qed

lemma spec_validator_year_ok:
  assumes t: "test_7_digits s"
    and y: "take 2 s = ''20'' \<or> take 2 s = ''99''"
    and n: "drop 4 s \<noteq> ''000''"
  shows "spec_validator s = Valid (spec_decode s)"
proof -
  obtain a b c d e f g where s: "s = [a, b, c, d, e, f, g]"
    using test_7_digits_shape [OF t] by blast
  have dg: "is_digit c" "is_digit d" "is_digit e" "is_digit f" "is_digit g"
    using t unfolding s test_7_digits_def by simp_all
  have yr: "in_range 20 99 (dec_value (take 2 s))"
  proof -
    have "dec_value ''20'' = 20" "dec_value ''99'' = 99"
      by (simp_all add: dec_value_def digit_val_def)
    moreover have "dec_value (take 2 s) = dec_value ''20'' \<or>
                   dec_value (take 2 s) = dec_value ''99''"
      using y by (rule disjE) (simp_all only: simp_thms)
    ultimately show ?thesis by (auto simp only: in_range_def)
  qed
  have sub: "in_range 0 99 (dec_value [c, d])"
    using digit_val_range [OF dg(1)] digit_val_range [OF dg(2)]
    by (simp add: in_range_def dec_value_def)
  have ne: "\<not> (e = CHR ''0'' \<and> f = CHR ''0'' \<and> g = CHR ''0'')"
    using n unfolding s by simp
  have nz: "digit_val e \<noteq> 0 \<or> digit_val f \<noteq> 0 \<or> digit_val g \<noteq> 0"
  proof (rule ccontr)
    assume "\<not> (digit_val e \<noteq> 0 \<or> digit_val f \<noteq> 0 \<or> digit_val g \<noteq> 0)"
    then have z: "digit_val e = 0" "digit_val f = 0" "digit_val g = 0" by simp_all
    have "e = CHR ''0''" by (rule digit_val_zero [OF dg(3) z(1)])
    moreover have "f = CHR ''0''" by (rule digit_val_zero [OF dg(4) z(2)])
    moreover have "g = CHR ''0''" by (rule digit_val_zero [OF dg(5) z(3)])
    ultimately show False using ne by (simp only: simp_thms)
  qed
  have ser: "in_range 1 9999 (dec_value [e, f, g])"
    using digit_val_range [OF dg(3)] digit_val_range [OF dg(4)] digit_val_range [OF dg(5)] nz
    by (simp add: in_range_def dec_value_def) arith
  have sb: "take 2 (drop 2 s) = [c, d]" "take 3 (drop 4 s) = [e, f, g]" unfolding s by simp_all
  show ?thesis
    unfolding spec_validator_def sb using t yr sub ser by simp
qed

text \<open>
  Claim C4. For every seven-digit string \<open>s\<close>, \<^verbatim>\<open>parseCertificateId\<close> returns a result
  (it is a total function of its argument alone), whose year is \<open>20\<close> followed by
  \<open>s[0:2]\<close>, whose sub-program is \<open>s[2:4]\<close>, whose serial is \<open>s[4:7]\<close>, and whose
  \<open>serialDisplay\<close> is the serial without its leading zeros, or \<open>0\<close> when nothing is left.
\<close>

theorem parseCertificateId_decode:
  assumes "test_7_digits s"
  shows "\<exists>p. parseCertificateId s = Some p \<and>
             year p = ''20'' @ take 2 s \<and>
             subProgram p = take 2 (drop 2 s) \<and>
             serial p = take 3 (drop 4 s) \<and>
             serialDisplay p =
               (if dropWhile (\<lambda>c. c = CHR ''0'') (serial p) = [] then ''0''
                else dropWhile (\<lambda>c. c = CHR ''0'') (serial p))"
  using parseCertificateId_eq [OF assms] by (simp add: spec_decode_def)

theorem parseCertificateId_decode_witness:
  "test_7_digits ''2501001'' \<and>
   (\<exists>p. parseCertificateId ''2501001'' = Some p \<and> year p = ''2025'' \<and>
        subProgram p = ''01'' \<and> serial p = ''001'' \<and> serialDisplay p = ''1'')"
proof -
  have t: "test_7_digits ''2501001''"
    by (simp add: test_7_digits_def is_digit_def)
  show ?thesis using t parseCertificateId_decode [OF t] by auto
qed

text \<open>
  Claim C3, as the code has it. The validator trims its input and converts it to upper
  case, and then applies the rules in order to the result, the first failure winning:
  the format message unless the result is seven digits, the year message unless the year
  digits are in 20 to 99, the sub-program message unless the sub-program is in 0 to 99,
  the serial message unless the serial is in 1 to 9999, and otherwise the decoded
  structure. On a seven-digit input the normalisation changes nothing; year digits
  \<open>19\<close> are rejected, \<open>20\<close> and \<open>99\<close> are accepted, and serial \<open>000\<close> is rejected.
\<close>

theorem validateCertificateId_rules:
  "validateCertificateId s = Some (spec_validator (toUpperCase (trim s))) \<and>
   (test_7_digits s \<longrightarrow> validateCertificateId s = Some (spec_validator s)) \<and>
   (test_7_digits s \<and> take 2 s = ''19'' \<longrightarrow>
      validateCertificateId s = Some (Invalid msg_year)) \<and>
   (test_7_digits s \<and> (take 2 s = ''20'' \<or> take 2 s = ''99'') \<and> drop 4 s \<noteq> ''000'' \<longrightarrow>
      validateCertificateId s = Some (Valid (spec_decode s))) \<and>
   (test_7_digits s \<and> in_range 20 99 (dec_value (take 2 s)) \<and> drop 4 s = ''000'' \<longrightarrow>
      validateCertificateId s = Some (Invalid msg_serial))"
proof -
  have r: "validateCertificateId s = Some (spec_validator (toUpperCase (trim s)))"
    by (rule validate_refines)
  have d: "test_7_digits s \<Longrightarrow> validateCertificateId s = Some (spec_validator s)"
    using r trim_7_digits by simp
  show ?thesis
    using r d spec_validator_year_19 spec_validator_year_ok spec_validator_serial_000
    by metis
qed

theorem validateCertificateId_rules_witness:
  "test_7_digits ''1901001'' \<and> test_7_digits ''2001001'' \<and>
   test_7_digits ''9901001'' \<and> test_7_digits ''2501000'' \<and>
   validateCertificateId '' 2501001 '' = Some (spec_validator ''2501001'') \<and>
   validateCertificateId ''1901001'' = Some (Invalid msg_year) \<and>
   validateCertificateId ''2001001'' = Some (Valid (spec_decode ''2001001'')) \<and>
   validateCertificateId ''9901001'' = Some (Valid (spec_decode ''9901001'')) \<and>
   validateCertificateId ''2501000'' = Some (Invalid msg_serial)"
proof -
  have n: "toUpperCase (trim '' 2501001 '') = ''2501001''"
    by (simp add: trim_def toUpperCase_def is_space_def upper_char_def)
  have t: "test_7_digits ''1901001''" "test_7_digits ''2001001''" "test_7_digits ''9901001''"
    "test_7_digits ''2501000''"
    by (simp_all add: test_7_digits_def is_digit_def)
  have y: "in_range 20 99 (dec_value (take 2 ''2501000''))"
    by (simp add: in_range_def dec_value_def digit_val_def)
  have a: "validateCertificateId '' 2501001 '' = Some (spec_validator ''2501001'')"
    using validateCertificateId_rules [of "'' 2501001 ''"] unfolding n by blast
  have k: "take 2 ''1901001'' = ''19''" "take 2 ''2001001'' = ''20''"
    "take 2 ''9901001'' = ''99''" "drop 4 ''2001001'' \<noteq> ''000''"
    "drop 4 ''9901001'' \<noteq> ''000''" "drop 4 ''2501000'' = ''000''"
    by simp_all
  have b: "validateCertificateId ''1901001'' = Some (Invalid msg_year)"
    using validateCertificateId_rules [of "''1901001''"] t(1) k(1) by blast
  have c: "validateCertificateId ''2001001'' = Some (Valid (spec_decode ''2001001''))"
    using validateCertificateId_rules [of "''2001001''"] t(2) k(2,4) by blast
  have d: "validateCertificateId ''9901001'' = Some (Valid (spec_decode ''9901001''))"
    using validateCertificateId_rules [of "''9901001''"] t(3) k(3,5) by blast
  have e: "validateCertificateId ''2501000'' = Some (Invalid msg_serial)"
    using validateCertificateId_rules [of "''2501000''"] t(4) y k(6) by blast
  from t a b c d e show ?thesis by simp
qed

text \<open>
  The claim C3 as worded says that every string that does not match the format is
  rejected with the format message. A seven-digit string with a leading space does not
  match, and the validator accepts it.
\<close>

theorem validateCertificateId_untrimmed_counterexample:
  "\<not> test_7_digits '' 2501001'' \<and>
   validateCertificateId '' 2501001'' =
     Some (Valid \<lparr>pid = ''2501001'', year = ''2025'', subProgram = ''01'', serial = ''001'',
                  serialDisplay = ''1''\<rparr>)"
proof -
  have n: "toUpperCase (trim '' 2501001'') = ''2501001''"
    by (simp add: trim_def toUpperCase_def is_space_def upper_char_def)
  have t: "test_7_digits ''2501001''"
    by (simp add: test_7_digits_def is_digit_def)
  have v: "spec_validator ''2501001'' =
      Valid \<lparr>pid = ''2501001'', year = ''2025'', subProgram = ''01'', serial = ''001'',
                  serialDisplay = ''1''\<rparr>"
    using t by (simp add: spec_validator_def in_range_def dec_value_def digit_val_def
        spec_decode_def)
  have "\<not> test_7_digits '' 2501001''" by (simp add: test_7_digits_def)
  then show ?thesis using validate_normalised [OF n t] v by simp
qed

section \<open>The list of verifying addresses\<close>

lemma touch_first_distinct:
  "distinct (map ip es) \<Longrightarrow>
   touch_first a now es = map (\<lambda>e. if ip e = a then e\<lparr>verifiedAt := now\<rparr> else e) es"
proof (induction es)
  case Nil
  then show ?case by simp
next
  case (Cons e es)
  show ?case
  proof (cases "ip e = a")
    case True
    with Cons.prems have "a \<notin> ip ` set es" by simp
    then have "\<forall>x \<in> set es. ip x \<noteq> a" by blast
    then have "map (\<lambda>e. if ip e = a then e\<lparr>verifiedAt := now\<rparr> else e) es = es"
      by (simp add: map_idI)
    with True show ?thesis by simp
  next
    case False
    with Cons show ?thesis by simp
  qed
qed

lemma map_ip_touched:
  "map ip (map (\<lambda>e. if ip e = a then e\<lparr>verifiedAt := now\<rparr> else e) es) = map ip es"
  by (induction es) simp_all

lemma find_ip_None: "(find (\<lambda>entry. ip entry = a) es = None) = (a \<notin> set (map ip es))"
  by (auto simp: find_None_iff)

lemma trackIP_new:
  assumes "a \<notin> set (map ip (ipAddresses c))"
  shows "ipAddresses (trackIP a now c) =
           (if length (ipAddresses c) \<ge> 10 then tl (ipAddresses c) else ipAddresses c)
           @ [\<lparr>ip = a, verifiedAt = now\<rparr>]"
proof -
  have "find (\<lambda>entry. ip entry = a) (ipAddresses c) = None"
    using assms find_ip_None [of a "ipAddresses c"] by blast
  then show ?thesis
    by (cases "ipAddresses c") (simp_all add: trackIP_def shift_def)
qed

lemma trackIP_known:
  assumes "a \<in> set (map ip (ipAddresses c))"
  shows "ipAddresses (trackIP a now c) = touch_first a now (ipAddresses c)"
proof -
  have "find (\<lambda>entry. ip entry = a) (ipAddresses c) \<noteq> None"
    using assms find_ip_None [of a "ipAddresses c"] by blast
  then show ?thesis by (auto simp: trackIP_def)
qed

text \<open>
  Claim C5. On a record whose address list has at most 10 entries with pairwise distinct
  addresses, \<^verbatim>\<open>trackIP\<close> leaves a list with at most 10 entries and pairwise distinct
  addresses. An address that is not in a full list evicts the front entry and is
  appended; an address that is not in a shorter list is appended; an address that is in
  the list has the time of its entry updated; the list is otherwise as it was.
\<close>

theorem trackIP_fifo:
  assumes len: "length (ipAddresses c) \<le> 10"
    and dist: "distinct (map ip (ipAddresses c))"
  shows "length (ipAddresses (trackIP a now c)) \<le> 10 \<and>
         distinct (map ip (ipAddresses (trackIP a now c))) \<and>
         (a \<notin> set (map ip (ipAddresses c)) \<and> length (ipAddresses c) = 10 \<longrightarrow>
            ipAddresses (trackIP a now c) =
              tl (ipAddresses c) @ [\<lparr>ip = a, verifiedAt = now\<rparr>]) \<and>
         (a \<notin> set (map ip (ipAddresses c)) \<and> length (ipAddresses c) < 10 \<longrightarrow>
            ipAddresses (trackIP a now c) =
              ipAddresses c @ [\<lparr>ip = a, verifiedAt = now\<rparr>]) \<and>
         (a \<in> set (map ip (ipAddresses c)) \<longrightarrow>
            length (ipAddresses (trackIP a now c)) = length (ipAddresses c) \<and>
            ipAddresses (trackIP a now c) =
              map (\<lambda>e. if ip e = a then e\<lparr>verifiedAt := now\<rparr> else e) (ipAddresses c))"
proof (cases "a \<in> set (map ip (ipAddresses c))")
  case True
  have eq: "ipAddresses (trackIP a now c) =
              map (\<lambda>e. if ip e = a then e\<lparr>verifiedAt := now\<rparr> else e) (ipAddresses c)"
    using trackIP_known [OF True] touch_first_distinct [OF dist] by simp
  have "map ip (map (\<lambda>e. if ip e = a then e\<lparr>verifiedAt := now\<rparr> else e) (ipAddresses c))
          = map ip (ipAddresses c)"
    by (rule map_ip_touched)
  then have m: "map ip (ipAddresses (trackIP a now c)) = map ip (ipAddresses c)"
    unfolding eq .
  have "length (ipAddresses (trackIP a now c)) = length (ipAddresses c)"
    unfolding eq by simp
  with m eq True len dist show ?thesis by (simp only:) simp
next
  case False
  note new = trackIP_new [OF False, of now]
  have d': "distinct (map ip (tl (ipAddresses c)))"
    using dist by (simp add: map_tl distinct_tl)
  have n': "a \<notin> set (map ip (tl (ipAddresses c)))"
    using False by (metis list.set_sel(2) list.map_disc_iff map_tl tl_Nil)
  show ?thesis
    using False len dist d' n' unfolding new by auto
qed


theorem trackIP_fifo_witness:
  "length (ipAddresses sample_certificate) \<le> 10 \<and>
   distinct (map ip (ipAddresses sample_certificate)) \<and>
   length (ipAddresses (trackIP (Some ''10.0.0.2'') 7 sample_certificate)) \<le> 10 \<and>
   ipAddresses (trackIP (Some ''10.0.0.2'') 7 sample_certificate) =
     ipAddresses sample_certificate @ [\<lparr>ip = Some ''10.0.0.2'', verifiedAt = 7\<rparr>]"
proof -
  have l: "length (ipAddresses sample_certificate) \<le> 10"
    by (simp add: sample_certificate_def)
  have d: "distinct (map ip (ipAddresses sample_certificate))"
    by (simp add: sample_certificate_def)
  have n: "Some ''10.0.0.2'' \<notin> set (map ip (ipAddresses sample_certificate)) \<and>
           length (ipAddresses sample_certificate) < 10"
    by (simp add: sample_certificate_def)
  note t = trackIP_fifo [OF l d, of "Some ''10.0.0.2''" 7]
  have a: "length (ipAddresses (trackIP (Some ''10.0.0.2'') 7 sample_certificate)) \<le> 10"
    using t by (rule conjunct1)
  have b: "ipAddresses (trackIP (Some ''10.0.0.2'') 7 sample_certificate) =
     ipAddresses sample_certificate @ [\<lparr>ip = Some ''10.0.0.2'', verifiedAt = 7\<rparr>]"
    using t n by simp
  show ?thesis using l d a b by (intro conjI)
qed

section \<open>Numbers\<close>

lemma round_magnitude_small: "m < 2 ^ 53 \<Longrightarrow> round_magnitude m = m"
  by (simp add: round_magnitude_def dropped_bits.simps)

lemma round_magnitude_edge: "round_magnitude (2 ^ 53) = 2 ^ 53"
  by code_simp

lemma round_magnitude_exact: "m \<le> 2 ^ 53 \<Longrightarrow> round_magnitude m = m"
  using round_magnitude_small [of m] round_magnitude_edge by (cases "m = 2 ^ 53") simp_all

lemma js_plus_exact:
  assumes "- (2 ^ 53) \<le> a + b" and "a + b \<le> 2 ^ 53"
  shows "js_plus a b = a + b"
proof (cases "a + b < 0")
  case True
  with assms(1) have "- (a + b) \<le> 2 ^ 53" by simp
  from round_magnitude_exact [OF this] True show ?thesis
    by (simp add: js_plus_def to_double_def)
next
  case False
  with round_magnitude_exact [OF assms(2)] show ?thesis
    by (simp add: js_plus_def to_double_def)
qed

lemma js_plus_stuck: "js_plus (2 ^ 53) 1 = 2 ^ 53"
  by code_simp

section \<open>Stored documents\<close>


lemma update_first_found:
  assumes "find R xs = Some c" and "Q c"
    and "\<And>x. x \<in> set xs \<Longrightarrow> Q x \<Longrightarrow> R x"
    and "R (f c)" and "k (f c) = k c"
  shows "\<exists>ys. update_first Q f xs = Some ys \<and> find R ys = Some (f c) \<and>
              map k ys = map k xs"
  using assms(1,3)
proof (induction xs)
  case Nil
  then show ?case by simp
next
  case (Cons x xs)
  show ?case
  proof (cases "R x")
    case True
    with Cons.prems(1) have "x = c" by simp
    with assms(2,4,5) show ?thesis by simp
  next
    case False
    with Cons.prems(2) have nq: "\<not> Q x" by auto
    from False Cons.prems(1) have "find R xs = Some c" by simp
    from Cons.IH [OF this] Cons.prems(2)
    obtain ys where "update_first Q f xs = Some ys" "find R ys = Some (f c)"
      "map k ys = map k xs" by auto
    with nq False show ?thesis by simp
  qed
qed

lemma pre_save_fields:
  "cert_oid (pre_save c) = cert_oid c"
  "certificateId (pre_save c) = certificateId c"
  "isRevoked (pre_save c) = isRevoked c"
  "isVerified (pre_save c) = isVerified c"
  "revokedAt (pre_save c) = revokedAt c"
  "revocationReason (pre_save c) = revocationReason c"
  "verificationCount (pre_save c) = verificationCount c"
  "lastVerifiedAt (pre_save c) = lastVerifiedAt c"
  "ipAddresses (pre_save c) = ipAddresses c"
  "version (pre_save c) = version c"
  "updatedAt (pre_save c) = updatedAt c"
  "program (pre_save c) = program c"
  "programCategory (pre_save c) = programCategory c"
  "awardDate (pre_save c) = awardDate c"
  "issuedBy (pre_save c) = issuedBy c"
  by (simp_all add: pre_save_def Let_def)

lemma saved_fields:
  "cert_oid (saved now ch c) = cert_oid c"
  "certificateId (saved now ch c) = certificateId c"
  "isRevoked (saved now ch c) = isRevoked c"
  "isVerified (saved now ch c) = isVerified c"
  "revokedAt (saved now ch c) = revokedAt c"
  "revocationReason (saved now ch c) = revocationReason c"
  "verificationCount (saved now ch c) = verificationCount c"
  "lastVerifiedAt (saved now ch c) = lastVerifiedAt c"
  "ipAddresses (saved now ch c) = ipAddresses c"
  by (simp_all add: saved_def pre_save_fields)

lemma trackIP_fields:
  "cert_oid (trackIP a now c) = cert_oid c"
  "certificateId (trackIP a now c) = certificateId c"
  "isRevoked (trackIP a now c) = isRevoked c"
  "isVerified (trackIP a now c) = isVerified c"
  "verificationCount (trackIP a now c) = verificationCount c"
  "lastVerifiedAt (trackIP a now c) = lastVerifiedAt c"
  "version (trackIP a now c) = version c"
  by (simp_all add: trackIP_def Let_def split: option.split)

text \<open>A document whose counter or whose revoked flag differs from the loaded one is
  modified, before and after the hooks.\<close>

lemma modified_by_key:
  assumes "verificationCount c \<noteq> verificationCount l \<or> isRevoked c \<noteq> isRevoked l"
  shows "modified l c ch" and "modified l (pre_save (c\<lparr>updatedAt := now\<rparr>)) ch"
proof -
  have "scalar_part c \<noteq> scalar_part l"
  proof
    assume e: "scalar_part c = scalar_part l"
    have "verificationCount (scalar_part c) = verificationCount (scalar_part l)"
      "isRevoked (scalar_part c) = isRevoked (scalar_part l)"
      by (simp_all only: e)
    with assms show False by (simp add: scalar_part_def)
  qed
  then show "modified l c ch" by (simp add: modified_def)
  have "scalar_part (pre_save (c\<lparr>updatedAt := now\<rparr>)) \<noteq> scalar_part l"
  proof
    assume e: "scalar_part (pre_save (c\<lparr>updatedAt := now\<rparr>)) = scalar_part l"
    have "verificationCount (scalar_part (pre_save (c\<lparr>updatedAt := now\<rparr>))) =
            verificationCount (scalar_part l)"
      "isRevoked (scalar_part (pre_save (c\<lparr>updatedAt := now\<rparr>))) = isRevoked (scalar_part l)"
      by (simp_all only: e)
    with assms show False by (simp add: scalar_part_def pre_save_fields)
  qed
  then show "modified l (pre_save (c\<lparr>updatedAt := now\<rparr>)) ch" by (simp add: modified_def)
qed

lemma save_modified:
  assumes "verificationCount c \<noteq> verificationCount l \<or> isRevoked c \<noteq> isRevoked l"
  shows "save now l ch c d =
     (case update_first (selects l ch)
             (apply_update l (pre_save (c\<lparr>updatedAt := now\<rparr>)) ch) (certificates d) of
        None \<Rightarrow>
          Inl (if checks_version ch then ''VersionError'' else ''DocumentNotFoundError'')
      | Some cs \<Rightarrow> Inr (saved now ch c, d\<lparr>certificates := cs\<rparr>))"
  using modified_by_key [OF assms]
  by (simp add: save_def Let_def saved_def pre_save_fields split: option.split)

lemma apply_update_fields:
  "cert_oid (apply_update l c ch s) = cert_oid s"
  "certificateId (apply_update l c ch s) =
     pick (certificateId l) (certificateId c) (certificateId s)"
  "verificationCount (apply_update l c ch s) =
     pick (verificationCount l) (verificationCount c) (verificationCount s)"
  by (simp_all add: apply_update_def)

text \<open>Applied to the document as it was loaded, the update stores the document in
  memory.\<close>

lemma apply_update_loaded:
  assumes "cert_oid c = cert_oid l" and "version c = version l"
    and "array_after ch (ipAddresses l) (ipAddresses c) = ipAddresses c"
  shows "apply_update l (pre_save (c\<lparr>updatedAt := now\<rparr>)) ch l = saved now ch c"
proof -
  let ?p = "pre_save (c\<lparr>updatedAt := now\<rparr>)"
  have p: "pick a b a = b" for a b :: 'x by (simp add: pick_def)
  have "apply_update l ?p ch l =
          ?p\<lparr>version := (if increments_version ch then version c + 1 else version c)\<rparr>"
    using assms
    by (intro certificate.equality) (simp_all add: apply_update_def p pre_save_fields)
  then show ?thesis by (simp add: saved_def)
qed

lemma touch_first_index:
  assumes "find (\<lambda>e. ip e = a) es = Some x"
  shows "touch_first a t es =
           es[first_index (\<lambda>e. ip e = a) es :=
                (es ! first_index (\<lambda>e. ip e = a) es)\<lparr>verifiedAt := t\<rparr>]"
    and "first_index (\<lambda>e. ip e = a) es < length es"
  using assms by (induction es) (auto simp: first_index_def)

lemma touch_first_same:
  assumes "find (\<lambda>e. ip e = a) es = Some x" and "verifiedAt x = now"
  shows "touch_first a now es = es"
  using assms by (induction es) auto

lemma trackIP_change_sound:
  "array_after (trackIP_change a now c) (ipAddresses c) (ipAddresses (trackIP a now c)) =
     ipAddresses (trackIP a now c)"
proof (cases "find (\<lambda>entry. ip entry = a) (ipAddresses c)")
  case None
  then show ?thesis
    by (cases "ipAddresses c")
       (simp_all add: trackIP_change_def trackIP_def array_after_def Let_def)
next
  case (Some x)
  show ?thesis
  proof (cases "verifiedAt x = now")
    case True
    with Some touch_first_same [OF Some True] show ?thesis
      by (simp add: trackIP_change_def trackIP_def array_after_def)
  next
    case False
    with Some touch_first_index [OF Some] show ?thesis
      by (simp add: trackIP_change_def trackIP_def array_after_def)
  qed
qed

text \<open>
  A save with no write in between: the document \<open>l\<close> is the first that \<open>R\<close> finds, the
  selection of the update matches only documents that \<open>R\<close> finds, and the document in
  memory keeps what \<open>R\<close> tests. The save succeeds and \<open>R\<close> finds the saved document.
\<close>

lemma save_loaded:
  assumes f: "find R (certificates d) = Some l"
    and sel: "\<And>x. x \<in> set (certificates d) \<Longrightarrow> selects l ch x \<Longrightarrow> R x"
    and key: "verificationCount c \<noteq> verificationCount l \<or> isRevoked c \<noteq> isRevoked l"
    and oid: "cert_oid c = cert_oid l" and ver: "version c = version l"
    and arr: "array_after ch (ipAddresses l) (ipAddresses c) = ipAddresses c"
    and keep: "R (saved now ch c)"
  shows "\<exists>d1. save now l ch c d = Inr (saved now ch c, d1) \<and>
              find R (certificates d1) = Some (saved now ch c) \<and>
              auditLogs d1 = auditLogs d \<and> admins d1 = admins d \<and>
              map cert_oid (certificates d1) = map cert_oid (certificates d)"
proof -
  let ?f = "apply_update l (pre_save (c\<lparr>updatedAt := now\<rparr>)) ch"
  have fl: "?f l = saved now ch c" by (rule apply_update_loaded [OF oid ver arr])
  have q: "selects l ch l" by (simp add: selects_def)
  have r: "R (?f l)" using keep fl by simp
  have k: "cert_oid (?f l) = cert_oid l" by (simp add: apply_update_fields)
  from update_first_found [where Q = "selects l ch" and f = ?f and R = R and k = cert_oid,
      OF f q sel r k]
  obtain ys where ys: "update_first (selects l ch) ?f (certificates d) = Some ys"
    "find R ys = Some (?f l)" "map cert_oid ys = map cert_oid (certificates d)"
    by blast
  have "save now l ch c d = Inr (saved now ch c, d\<lparr>certificates := ys\<rparr>)"
    unfolding save_modified [OF key] ys(1) by simp
  with ys(2,3) fl show ?thesis by simp
qed


lemma touch_first_records:
  "a \<in> ip ` set es \<Longrightarrow> \<exists>e \<in> set (touch_first a now es). ip e = a \<and> verifiedAt e = now"
  by (induction es) auto

lemma trackIP_records:
  "\<exists>e \<in> set (ipAddresses (trackIP a now c)). ip e = a \<and> verifiedAt e = now"
proof (cases "find (\<lambda>entry. ip entry = a) (ipAddresses c)")
  case None
  then show ?thesis by (simp add: trackIP_def Let_def)
next
  case (Some x)
  then have "a \<in> ip ` set (ipAddresses c)"
    by (auto simp: find_Some_iff)
  from touch_first_records [OF this, of now] Some show ?thesis
    by (simp add: trackIP_def)
qed

lemma AuditLog_create_fields:
  "certificates (AuditLog_create now e d) = certificates d"
  "admins (AuditLog_create now e d) = admins d"
  "auditLogs (AuditLog_create now e d) = auditLogs d @ [e\<lparr>createdAt := now\<rparr>]"
  by (simp_all add: AuditLog_create_def)

lemma findByCertificateId_AuditLog_create:
  "findByCertificateId (AuditLog_create now e d) i = findByCertificateId d i"
  by (simp add: findByCertificateId_def AuditLog_create_fields)

section \<open>The public verification route\<close>

lemma handleValidationErrors_None: "(handleValidationErrors errs = None) = (errs = [])"
  by (simp add: handleValidationErrors_def)

lemma verify_route_rejected:
  assumes "check_certificateId req \<noteq> []"
  shows "db_after (verify_route now d req) = d"
    and "calls (verify_route now d req) = []"
    and "http_status (reply (verify_route now d req)) = 400"
  using assms by (simp_all add: verify_route_def handleValidationErrors_def)

lemma verify_route_not_found:
  assumes "check_certificateId req = []" and "findByCertificateId d (param req) = None"
  shows "http_status (reply (verify_route now d req)) = 404"
  using assms by (simp add: verify_route_def handleValidationErrors_def Let_def)

lemma verify_route_revoked:
  assumes "check_certificateId req = []" and "findByCertificateId d (param req) = Some c"
    and "isRevoked c"
  shows "http_status (reply (verify_route now d req)) = 410"
  using assms by (simp add: verify_route_def handleValidationErrors_def Let_def)

lemma verify_route_unverified:
  assumes "check_certificateId req = []" and "findByCertificateId d (param req) = Some c"
    and "\<not> isRevoked c" and "\<not> isVerified c"
  shows "http_status (reply (verify_route now d req)) = 500"
  using assms
  by (simp add: verify_route_def handleValidationErrors_def Let_def verify_def
      verification_error_def)

text \<open>The save of the verification handler, when nothing was written to the document
  since the handler read it.\<close>

lemma verify_save:
  assumes f: "findByCertificateId d i = Some c"
    and ids: "distinct (map cert_oid (certificates d))"
    and lo: "- (2 ^ 53) \<le> verificationCount c" and hi: "verificationCount c < 2 ^ 53"
    and c1: "c1 = c\<lparr>verificationCount := js_plus (verificationCount c) 1,
                     lastVerifiedAt := Some now\<rparr>"
  shows "\<exists>c' d1. save t c (trackIP_change a now c1) (trackIP a now c1) d = Inr (c', d1) \<and>
           findByCertificateId d1 i = Some c' \<and>
           auditLogs d1 = auditLogs d \<and> admins d1 = admins d \<and>
           map cert_oid (certificates d1) = map cert_oid (certificates d) \<and>
           verificationCount c' = verificationCount c + 1 \<and>
           lastVerifiedAt c' = Some now \<and>
           isRevoked c' = isRevoked c \<and> isVerified c' = isVerified c \<and>
           cert_oid c' = cert_oid c \<and>
           (\<exists>e \<in> set (ipAddresses c'). ip e = a \<and> verifiedAt e = now)"
proof -
  let ?R = "\<lambda>x. certificateId x = toUpperCase i"
  let ?ch = "trackIP_change a now c1"
  let ?m = "trackIP a now c1"
  have cnt: "js_plus (verificationCount c) 1 = verificationCount c + 1"
    using lo hi by (intro js_plus_exact) simp_all
  have fr: "find ?R (certificates d) = Some c"
    using f by (simp add: findByCertificateId_def)
  then have rc: "?R c" and c_in: "c \<in> set (certificates d)"
    by (auto simp: find_Some_iff)
  have sel: "\<And>x. x \<in> set (certificates d) \<Longrightarrow> selects c ?ch x \<Longrightarrow> ?R x"
  proof -
    fix x assume x: "x \<in> set (certificates d)" and q: "selects c ?ch x"
    then have "cert_oid x = cert_oid c" by (simp add: selects_def)
    with ids x c_in have "x = c" by (meson distinct_map inj_onD)
    with rc show "?R x" by simp
  qed
  have key: "verificationCount ?m \<noteq> verificationCount c \<or> isRevoked ?m \<noteq> isRevoked c"
    unfolding c1 by (simp add: trackIP_fields cnt)
  have oid: "cert_oid ?m = cert_oid c" and ver: "version ?m = version c"
    unfolding c1 by (simp_all add: trackIP_fields)
  have "ipAddresses c1 = ipAddresses c" unfolding c1 by simp
  with trackIP_change_sound [where a = a and now = now and c = c1]
  have arr: "array_after ?ch (ipAddresses c) (ipAddresses ?m) = ipAddresses ?m" by simp
  have keep: "?R (saved t ?ch ?m)"
    using rc unfolding c1 by (simp add: saved_fields trackIP_fields)
  from save_loaded [where R = ?R, OF fr sel key oid ver arr keep]
  obtain d1 where d1: "save t c ?ch ?m d = Inr (saved t ?ch ?m, d1)"
    "find ?R (certificates d1) = Some (saved t ?ch ?m)"
    "auditLogs d1 = auditLogs d" "admins d1 = admins d"
    "map cert_oid (certificates d1) = map cert_oid (certificates d)" by blast
  have p: "verificationCount (saved t ?ch ?m) = verificationCount c + 1"
    "lastVerifiedAt (saved t ?ch ?m) = Some now"
    "isRevoked (saved t ?ch ?m) = isRevoked c"
    "isVerified (saved t ?ch ?m) = isVerified c"
    "cert_oid (saved t ?ch ?m) = cert_oid c"
    unfolding c1 by (simp_all add: saved_fields trackIP_fields cnt)
  have e: "\<exists>e \<in> set (ipAddresses (saved t ?ch ?m)). ip e = a \<and> verifiedAt e = now"
    using trackIP_records [where c = c1 and a = a and now = now] by (simp add: saved_fields)
  from d1 p e show ?thesis
    by (intro exI [of _ "saved t ?ch ?m"] exI [of _ d1])
       (simp add: findByCertificateId_def)
qed

lemma verify_route_success:
  assumes v: "check_certificateId req = []"
    and f: "findByCertificateId d (param req) = Some c"
    and nr: "\<not> isRevoked c" and iv: "isVerified c"
    and ids: "distinct (map cert_oid (certificates d))"
    and lo: "- (2 ^ 53) \<le> verificationCount c" and hi: "verificationCount c < 2 ^ 53"
  shows "\<exists>c' d1.
           verify_route now d req =
             \<lparr>db_after =
                AuditLog_create now
                  ((audit_entry VERIFY CERTIFICATE SUCCESS)
                     \<lparr>entityId := EntityKey (param req), ipAddress := clientIP req\<rparr>) d1,
              calls = [Call_Certificate_findOne, Call_Certificate_save,
                       Call_AuditLog_create],
              reply =
                \<lparr>http_status = 200,
                 json = JObj [(''verified'', JBool True),
                              (''certificate'', public_projection c')]\<rparr>\<rparr> \<and>
           findByCertificateId d1 (param req) = Some c' \<and>
           auditLogs d1 = auditLogs d \<and>
           map cert_oid (certificates d1) = map cert_oid (certificates d) \<and>
           verificationCount c' = verificationCount c + 1 \<and>
           lastVerifiedAt c' = Some now \<and>
           \<not> isRevoked c' \<and> isVerified c' \<and>
           (\<exists>e \<in> set (ipAddresses c'). ip e = clientIP req \<and> verifiedAt e = now)"
proof -
  let ?c1 = "c\<lparr>verificationCount := js_plus (verificationCount c) 1,
                lastVerifiedAt := Some now\<rparr>"
  from verify_save [OF f ids lo hi refl, where now = now and a = "clientIP req" and t = now]
  obtain c' d1 where s:
    "save now c (trackIP_change (clientIP req) now ?c1) (trackIP (clientIP req) now ?c1) d =
       Inr (c', d1)"
    "findByCertificateId d1 (param req) = Some c'"
    "auditLogs d1 = auditLogs d"
    "map cert_oid (certificates d1) = map cert_oid (certificates d)"
    "verificationCount c' = verificationCount c + 1"
    "lastVerifiedAt c' = Some now"
    "isRevoked c' = isRevoked c" "isVerified c' = isVerified c"
    "\<exists>e \<in> set (ipAddresses c'). ip e = clientIP req \<and> verifiedAt e = now"
    by blast
  have "verify_route now d req =
             \<lparr>db_after =
                AuditLog_create now
                  ((audit_entry VERIFY CERTIFICATE SUCCESS)
                     \<lparr>entityId := EntityKey (param req), ipAddress := clientIP req\<rparr>) d1,
              calls = [Call_Certificate_findOne, Call_Certificate_save,
                       Call_AuditLog_create],
              reply =
                \<lparr>http_status = 200,
                 json = JObj [(''verified'', JBool True),
                              (''certificate'', public_projection c')]\<rparr>\<rparr>"
    using v f nr iv s(1)
    by (simp add: verify_route_def handleValidationErrors_def Let_def verify_def)
  with s nr iv show ?thesis by (intro exI [of _ c'] exI [of _ d1]) simp
qed

lemma verify_route_200:
  assumes "http_status (reply (verify_route now d req)) = 200"
  shows "check_certificateId req = [] \<and>
         (\<exists>c. findByCertificateId d (param req) = Some c \<and> \<not> isRevoked c \<and> isVerified c)"
proof -
  have v: "check_certificateId req = []"
  proof (rule ccontr)
    assume "check_certificateId req \<noteq> []"
    from verify_route_rejected(3) [OF this, of now d] assms show False by simp
  qed
  have "\<exists>c. findByCertificateId d (param req) = Some c \<and> \<not> isRevoked c \<and> isVerified c"
  proof (cases "findByCertificateId d (param req)")
    case None
    from verify_route_not_found [OF v None, of now] assms show ?thesis by simp
  next
    case (Some c)
    show ?thesis
    proof (cases "isRevoked c")
      case True
      from verify_route_revoked [OF v Some True, of now] assms show ?thesis by simp
    next
      case False
      show ?thesis
      proof (cases "isVerified c")
        case True
        with Some False show ?thesis by simp
      next
        case nv: False
        from verify_route_unverified [OF v Some False nv, of now] assms show ?thesis by simp
      qed
    qed
  qed
  with v show ?thesis by simp
qed

lemma sample_request_valid: "check_certificateId sample_request = []"
  by code_simp

lemma sample_db_find:
  "findByCertificateId sample_db (param sample_request) = Some sample_certificate"
  by code_simp

text \<open>
  Claim C1, where the code departs from it. The validation chain of the route reads the
  field \<open>certificateId\<close> of the query string, and the handler looks up the path
  parameter, which nothing validates. A request for the ID 2501001 of a stored, active
  certificate, with no query string, is answered 400: no lookup is made and no audit
  entry is written, where the claim has a SUCCESS entry. A request whose path
  parameter is \<open>abc\<close> and whose query string carries a valid ID passes the chain: the
  lookup is made and a FAILED entry is written, where the claim has no lookup and no
  entry.
\<close>

theorem verify_route_validates_query:
  "test_7_digits (param path_only_request) \<and>
   findByCertificateId sample_db (param path_only_request) = Some sample_certificate \<and>
   isRevoked sample_certificate = False \<and>
   http_status (reply (verify_route 5000 sample_db path_only_request)) = 400 \<and>
   calls (verify_route 5000 sample_db path_only_request) = [] \<and>
   auditLogs (db_after (verify_route 5000 sample_db path_only_request)) = [] \<and>
   test_7_digits (toUpperCase (trim (param bad_path_request))) = False \<and>
   http_status (reply (verify_route 5000 sample_db bad_path_request)) = 404 \<and>
   calls (verify_route 5000 sample_db bad_path_request) =
     [Call_Certificate_findOne, Call_AuditLog_create] \<and>
   map status (auditLogs (db_after (verify_route 5000 sample_db bad_path_request))) =
     [FAILED]"
  by code_simp

lemma keys_public_projection:
  "keys (public_projection c) =
     [''certificateId'', ''recipientName'', ''program'', ''programCategory'', ''awardDate'',
      ''issuedBy'', ''year'', ''serialNumber'', ''verificationCount'']"
  by (simp add: keys_def public_projection_def)

text \<open>
  Claim C2, as the code has it. Take a public verification that the handler serves with
  no other write to the record between its read and its save, on a record whose counter
  is below \<open>2 ^ 53\<close> in magnitude, in a collection with unique \<open>_id\<close>. When it succeeds
  (the answer is 200), the record found under the certificate ID was not revoked; the
  handler saved it; the stored record under that ID has the counter of the record found
  plus 1, the time of the request as its last verification, and an entry with that time
  for the caller's address, which is \<^verbatim>\<open>req.ip\<close>, or the remote address of the connection
  when \<^verbatim>\<open>req.ip\<close> is missing or empty; and the certificate in the answer is the public
  projection of the stored record: nine keys, among them neither the address list nor
  \<open>_id\<close>.
\<close>

theorem verify_route_success_effect:
  assumes r: "r = verify_route now d req"
    and ok: "http_status (reply r) = 200"
    and found: "findByCertificateId d (param req) = Some c"
    and ids: "distinct (map cert_oid (certificates d))"
    and lo: "- (2 ^ 53) \<le> verificationCount c" and hi: "verificationCount c < 2 ^ 53"
  shows "\<not> isRevoked c \<and>
         (\<exists>c'. findByCertificateId (db_after r) (param req) = Some c' \<and>
           Call_Certificate_save \<in> set (calls r) \<and>
           verificationCount c' = verificationCount c + 1 \<and>
           lastVerifiedAt c' = Some now \<and>
           (\<exists>e \<in> set (ipAddresses c').
              ip e = (if req_ip req = None \<or> req_ip req = Some [] then remoteAddress req
                      else req_ip req) \<and>
              verifiedAt e = now) \<and>
           field (json (reply r)) ''certificate'' = public_projection c' \<and>
           field (field (json (reply r)) ''certificate'') ''verificationCount'' =
             JNum (verificationCount c + 1) \<and>
           keys (field (json (reply r)) ''certificate'') =
             [''certificateId'', ''recipientName'', ''program'', ''programCategory'',
              ''awardDate'', ''issuedBy'', ''year'', ''serialNumber'', ''verificationCount''] \<and>
           field (field (json (reply r)) ''certificate'') ''ipAddresses'' = JUndefined \<and>
           field (field (json (reply r)) ''certificate'') ''_id'' = JUndefined)"
proof -
  from verify_route_200 [OF ok [unfolded r]] found
  have v: "check_certificateId req = []" and nr: "\<not> isRevoked c" and iv: "isVerified c"
    by auto
  from verify_route_success [OF v found nr iv ids lo hi, of now]
  obtain c' d1 where e:
    "verify_route now d req =
       \<lparr>db_after =
          AuditLog_create now
            ((audit_entry VERIFY CERTIFICATE SUCCESS)
               \<lparr>entityId := EntityKey (param req), ipAddress := clientIP req\<rparr>) d1,
        calls = [Call_Certificate_findOne, Call_Certificate_save, Call_AuditLog_create],
        reply =
          \<lparr>http_status = 200,
           json = JObj [(''verified'', JBool True),
                        (''certificate'', public_projection c')]\<rparr>\<rparr>"
    and st: "findByCertificateId d1 (param req) = Some c'"
    and cnt: "verificationCount c' = verificationCount c + 1"
    and lv: "lastVerifiedAt c' = Some now"
    and ips: "\<exists>e \<in> set (ipAddresses c'). ip e = clientIP req \<and> verifiedAt e = now"
    by blast
  have addr: "clientIP req =
      (if req_ip req = None \<or> req_ip req = Some [] then remoteAddress req else req_ip req)"
    by (cases "req_ip req") (simp_all add: clientIP_def)
  have stored: "findByCertificateId (db_after r) (param req) = Some c'"
    unfolding r e using st by (simp add: findByCertificateId_AuditLog_create)
  have sv: "Call_Certificate_save \<in> set (calls r)" unfolding r e by simp
  have ips': "\<exists>e \<in> set (ipAddresses c').
              ip e = (if req_ip req = None \<or> req_ip req = Some [] then remoteAddress req
                      else req_ip req) \<and> verifiedAt e = now"
    using ips unfolding addr .
  have pj: "field (json (reply r)) ''certificate'' = public_projection c'"
    unfolding r e by (simp add: field_def)
  have vc: "field (field (json (reply r)) ''certificate'') ''verificationCount'' =
              JNum (verificationCount c + 1)"
    unfolding pj using cnt by (simp add: public_projection_def field_def)
  have ks: "keys (field (json (reply r)) ''certificate'') =
             [''certificateId'', ''recipientName'', ''program'', ''programCategory'',
              ''awardDate'', ''issuedBy'', ''year'', ''serialNumber'', ''verificationCount'']"
    unfolding pj by (rule keys_public_projection)
  have no_ips: "field (field (json (reply r)) ''certificate'') ''ipAddresses'' = JUndefined"
    unfolding pj by (simp add: public_projection_def field_def)
  have no_id: "field (field (json (reply r)) ''certificate'') ''_id'' = JUndefined"
    unfolding pj by (simp add: public_projection_def field_def)
  from stored sv cnt lv ips' pj vc ks no_ips no_id
  have "\<exists>c'. findByCertificateId (db_after r) (param req) = Some c' \<and>
           Call_Certificate_save \<in> set (calls r) \<and>
           verificationCount c' = verificationCount c + 1 \<and>
           lastVerifiedAt c' = Some now \<and>
           (\<exists>e \<in> set (ipAddresses c').
              ip e = (if req_ip req = None \<or> req_ip req = Some [] then remoteAddress req
                      else req_ip req) \<and>
              verifiedAt e = now) \<and>
           field (json (reply r)) ''certificate'' = public_projection c' \<and>
           field (field (json (reply r)) ''certificate'') ''verificationCount'' =
             JNum (verificationCount c + 1) \<and>
           keys (field (json (reply r)) ''certificate'') =
             [''certificateId'', ''recipientName'', ''program'', ''programCategory'',
              ''awardDate'', ''issuedBy'', ''year'', ''serialNumber'', ''verificationCount''] \<and>
           field (field (json (reply r)) ''certificate'') ''ipAddresses'' = JUndefined \<and>
           field (field (json (reply r)) ''certificate'') ''_id'' = JUndefined"
    by (intro exI [of _ c'] conjI)
  with nr show ?thesis by (rule conjI)
qed

lemma sample_verify_200:
  "http_status (reply (verify_route 5000 sample_db sample_request)) = 200"
  by code_simp

theorem verify_route_success_effect_witness:
  "http_status (reply (verify_route 5000 sample_db sample_request)) = 200 \<and>
   findByCertificateId sample_db (param sample_request) = Some sample_certificate \<and>
   distinct (map cert_oid (certificates sample_db)) \<and>
   - (2 ^ 53) \<le> verificationCount sample_certificate \<and>
   verificationCount sample_certificate < 2 ^ 53 \<and>
   (\<exists>c'. findByCertificateId (db_after (verify_route 5000 sample_db sample_request))
            (param sample_request) = Some c' \<and>
         verificationCount c' = verificationCount sample_certificate + 1 \<and>
         lastVerifiedAt c' = Some 5000 \<and>
         (\<exists>e \<in> set (ipAddresses c'). ip e = Some ''10.0.0.2'' \<and> verifiedAt e = 5000))"
proof -
  have ids: "distinct (map cert_oid (certificates sample_db))"
    by (simp add: sample_db_def)
  have lo: "- (2 ^ 53) \<le> verificationCount sample_certificate"
    and hi: "verificationCount sample_certificate < 2 ^ 53"
    by (simp_all add: sample_certificate_def)
  have a: "(if req_ip sample_request = None \<or> req_ip sample_request = Some []
            then remoteAddress sample_request else req_ip sample_request) = Some ''10.0.0.2''"
    by (simp add: sample_request_def)
  from verify_route_success_effect [OF refl sample_verify_200 sample_db_find ids lo hi]
  have "\<exists>c'. findByCertificateId (db_after (verify_route 5000 sample_db sample_request))
            (param sample_request) = Some c' \<and>
         verificationCount c' = verificationCount sample_certificate + 1 \<and>
         lastVerifiedAt c' = Some 5000 \<and>
         (\<exists>e \<in> set (ipAddresses c'). ip e = Some ''10.0.0.2'' \<and> verifiedAt e = 5000)"
    unfolding a by blast
  with sample_verify_200 sample_db_find ids lo hi show ?thesis by (intro conjI)
qed

text \<open>
  The claim C2 as worded has every successful verification increment the stored counter.
  Two requests for the sample certificate, which has been verified 4 times, are in
  flight; both read the record before either saves it. When the first has saved, the
  stored counter is 5; the second saves and is answered 200, and the stored counter is
  still 5.
\<close>

theorem verify_route_second_counterexample:
  "map_option verificationCount
     (findByCertificateId
        (fst (run_two sample_db (Start sample_request) (Start sample_request)
           [(True, 5000), (False, 5001), (True, 5002)])) ''2501001'') = Some 5 \<and>
   answered (snd (snd (run_two sample_db (Start sample_request) (Start sample_request)
      [(True, 5000), (False, 5001), (True, 5002), (False, 5003), (False, 5004)]))) =
     Some 200 \<and>
   map_option verificationCount
     (findByCertificateId
        (fst (run_two sample_db (Start sample_request) (Start sample_request)
           [(True, 5000), (False, 5001), (True, 5002), (False, 5003), (False, 5004)]))
        ''2501001'') = Some 5"
  by code_simp

section \<open>The existence check\<close>

lemma check_route_db: "db_after (check_route d req) = d"
  by (simp add: check_route_def Let_def split: option.split)

lemma check_route_calls:
  "calls (check_route d req) = [] \<or> calls (check_route d req) = [Call_Certificate_exists]"
  by (simp add: check_route_def Let_def split: option.split)

text \<open>
  Claim C8. \<^verbatim>\<open>GET /check/:certificateId\<close> leaves the database as it was, for every
  request and every database: the certificates and the audit log are unchanged, the
  handler issues neither a save nor an audit entry, and any number of calls in a row
  leaves the database unchanged.
\<close>

theorem check_route_no_effect:
  "db_after (check_route d req) = d \<and>
   certificates (db_after (check_route d req)) = certificates d \<and>
   auditLogs (db_after (check_route d req)) = auditLogs d \<and>
   Call_Certificate_save \<notin> set (calls (check_route d req)) \<and>
   Call_AuditLog_create \<notin> set (calls (check_route d req)) \<and>
   foldl (\<lambda>s q. db_after (check_route s q)) d reqs = d"
proof -
  have "foldl (\<lambda>s q. db_after (check_route s q)) d reqs = d"
    by (induction reqs) (simp_all add: check_route_db)
  moreover have "Call_Certificate_save \<notin> set (calls (check_route d req))"
    "Call_AuditLog_create \<notin> set (calls (check_route d req))"
    using check_route_calls [of d req] by auto
  ultimately show ?thesis by (simp add: check_route_db)
qed

theorem check_route_no_effect_witness:
  "db_after (check_route sample_db sample_request) = sample_db \<and>
   foldl (\<lambda>s q. db_after (check_route s q)) sample_db
     [sample_request, sample_request, sample_request] = sample_db"
  using check_route_no_effect [of sample_db sample_request
      "[sample_request, sample_request, sample_request]"]
  by (elim conjE) (intro conjI)

lemma check_route_reached:
  assumes "check_certificateId req = []"
  shows "check_route d req =
     \<lparr>db_after = d, calls = [Call_Certificate_exists],
      reply =
        \<lparr>http_status = 200,
         json = JObj [(''exists'', JBool (exists_active d (param req))),
                      (''certificateId'', JStr (param req))]\<rparr>\<rparr>"
  using assms by (simp add: check_route_def handleValidationErrors_def Let_def)

lemma exists_active_unique:
  assumes "distinct (map certificateId cs)" and "c \<in> set cs" and "isRevoked c"
  shows "find (\<lambda>x. certificateId x = certificateId c \<and> isRevoked x = False) cs = None"
proof -
  have "\<And>x. x \<in> set cs \<Longrightarrow> certificateId x = certificateId c \<Longrightarrow> x = c"
    using assms(1,2) by (meson distinct_map inj_onD)
  with assms(3) show ?thesis by (auto simp: find_None_iff)
qed

text \<open>
  Claim C10. Certificate IDs are unique in the collection (the schema declares a unique
  index). When a request reaches the handler of the existence check with the ID of a
  stored record that is revoked, the answer reports \<open>exists: false\<close>.
\<close>

theorem check_route_revoked:
  assumes reached: "check_certificateId req = []"
    and unique: "distinct (map certificateId (certificates d))"
    and stored: "c \<in> set (certificates d)"
    and this_id: "certificateId c = param req"
    and revoked: "isRevoked c"
  shows "field (json (reply (check_route d req))) ''exists'' = JBool False \<and>
         http_status (reply (check_route d req)) = 200"
proof -
  have "exists_active d (param req) = False"
    using exists_active_unique [OF unique stored revoked] this_id
    by (simp add: exists_active_def)
  then show ?thesis
    unfolding check_route_reached [OF reached] by (simp add: field_def)
qed

theorem check_route_revoked_witness:
  "check_certificateId sample_request = [] \<and>
   distinct (map certificateId (certificates revoked_db)) \<and>
   revoked_certificate \<in> set (certificates revoked_db) \<and>
   certificateId revoked_certificate = param sample_request \<and>
   isRevoked revoked_certificate \<and>
   field (json (reply (check_route revoked_db sample_request))) ''exists'' = JBool False"
proof -
  have u: "distinct (map certificateId (certificates revoked_db))"
    by (simp add: revoked_db_def)
  have s: "revoked_certificate \<in> set (certificates revoked_db)"
    by (simp add: revoked_db_def)
  have i: "certificateId revoked_certificate = param sample_request"
    by (simp add: revoked_certificate_def sample_certificate_def sample_request_def)
  have v: "isRevoked revoked_certificate"
    by (simp add: revoked_certificate_def)
  from check_route_revoked [OF sample_request_valid u s i v]
  have "field (json (reply (check_route revoked_db sample_request))) ''exists'' = JBool False"
    by (rule conjunct1)
  with sample_request_valid u s i v show ?thesis by (intro conjI)
qed

section \<open>The revoke route\<close>














section \<open>The login route\<close>




















section \<open>Two verifications in flight\<close>











text \<open>
  The second answer can be 500. The certificate of \<open>full_db\<close> holds ten addresses, none
  of them the caller's, so that each request drops the oldest address and sends the whole
  array under the version check. The first save raises the version; the second selects
  nothing and fails. The first request is answered 200 and the second 500, the stored
  counter is 5, both addresses of the first save are kept, and one audit entry is
  written.
\<close>

lemma verify_route_version_conflict:
  "verificationCount full_certificate = 4 \<and>
   answered (fst (snd (run_two full_db (Start sample_request) (Start sample_request)
      [(True, 5000), (False, 5001), (True, 5002), (False, 5003), (True, 5004),
       (False, 5005)]))) = Some 200 \<and>
   answered (snd (snd (run_two full_db (Start sample_request) (Start sample_request)
      [(True, 5000), (False, 5001), (True, 5002), (False, 5003), (True, 5004),
       (False, 5005)]))) = Some 500 \<and>
   map_option verificationCount
     (findByCertificateId
        (fst (run_two full_db (Start sample_request) (Start sample_request)
           [(True, 5000), (False, 5001), (True, 5002), (False, 5003), (True, 5004),
            (False, 5005)])) ''2501001'') = Some 5 \<and>
   length (auditLogs
        (fst (run_two full_db (Start sample_request) (Start sample_request)
           [(True, 5000), (False, 5001), (True, 5002), (False, 5003), (True, 5004),
            (False, 5005)]))) = length (auditLogs full_db) + 1"
  by code_simp

end
